theory Spec2Isabelle
  imports Main "HOL-Library.Word" "HOL-Library.AList" "HOL-Library.Sublist"
begin

section \<open>Paths\<close>

text \<open>
  A path is the list of its components, read from the root of the file system it is
  used on. The file-system primitives below resolve a path literally, component by
  component; only \<open>filepath.Join\<close>, \<open>filepath.Rel\<close> and \<open>filepath.Dir\<close> clean a path
  lexically, as Go's \<open>path/filepath\<close> does.
\<close>

type_synonym path = "string list"

type_synonym byte = "8 word"

type_synonym bytes = "byte list"

text \<open>\<open>filepath.Clean\<close>: empty and \<open>.\<close> components vanish, \<open>..\<close> removes the component
  before it, leading \<open>..\<close> components of a relative path stay.\<close>

fun clean_acc :: "path \<Rightarrow> path \<Rightarrow> path" where
  "clean_acc acc [] = rev acc"
| "clean_acc acc (c # cs) =
     (if c = '''' \<or> c = ''.'' then clean_acc acc cs
      else if c = ''..'' then
        (case acc of
           [] \<Rightarrow> clean_acc [c] cs
         | a # as \<Rightarrow> if a = ''..'' then clean_acc (c # acc) cs else clean_acc as cs)
      else clean_acc (c # acc) cs)"

definition clean :: "path \<Rightarrow> path" where
  "clean p = clean_acc [] p"

definition filepath_Join :: "path \<Rightarrow> path \<Rightarrow> path" where
  "filepath_Join a b = clean (a @ b)"

definition filepath_Dir :: "path \<Rightarrow> path" where
  "filepath_Dir p = butlast (clean p)"

fun strip_common :: "path \<Rightarrow> path \<Rightarrow> path \<times> path" where
  "strip_common (a # as) (b # bs) = (if a = b then strip_common as bs else (a # as, b # bs))"
| "strip_common as bs = (as, bs)"

section \<open>Errors\<close>

text \<open>
  The error values of the libraries the client calls: \<open>*fs.PathError\<close> of package
  \<open>os\<close> (operation, path, cause), the status errors of the sftp client, which carry a
  message and no path, plain errors of \<open>ssh\<close>, \<open>net\<close> and \<open>io\<close>, and an error wrapped by
  \<open>fmt.Errorf("...: %w", err)\<close>.
\<close>

datatype error =
    PathError string path string
  | StatusError string
  | PlainError string
  | WrapError string error

text \<open>The path an error value names, if it names one.\<close>

fun error_path :: "error \<Rightarrow> path option" where
  "error_path (PathError opn p cause) = Some p"
| "error_path (StatusError m) = None"
| "error_path (PlainError m) = None"
| "error_path (WrapError m e) = error_path e"

text \<open>\<open>filepath.Rel\<close>: both paths are cleaned, the common prefix is dropped, each
  remaining component of the base becomes \<open>..\<close>; it fails when the first remaining
  component of the base is \<open>..\<close> itself.\<close>

definition filepath_Rel :: "path \<Rightarrow> path \<Rightarrow> error + path" where
  "filepath_Rel base targ =
     (case strip_common (clean base) (clean targ) of
        (b, t) \<Rightarrow>
          (case b of
             [] \<Rightarrow> Inr t
           | c # cs \<Rightarrow>
               if c = ''..'' then Inl (PlainError ''Rel: can't make path relative'')
               else Inr (replicate (length b) ''..'' @ t)))"

section \<open>File systems\<close>

text \<open>
  A file system is a tree: a regular file with its bytes, or a directory with its
  entries in the order in which a directory read lists them. The root of a file system
  is the node at path \<open>[]\<close>.
\<close>

datatype node = File bytes | Dir "(string \<times> node) list"

datatype file_info = FileInfo (IsDir: bool)

fun info_of :: "node \<Rightarrow> file_info" where
  "info_of (File b) = FileInfo False"
| "info_of (Dir es) = FileInfo True"

fun lookup :: "path \<Rightarrow> node \<Rightarrow> node option" where
  "lookup [] n = Some n"
| "lookup (c # cs) n =
     (case n of
        File b \<Rightarrow> None
      | Dir es \<Rightarrow> (case map_of es c of None \<Rightarrow> None | Some m \<Rightarrow> lookup cs m))"

text \<open>What a \<open>stat\<close> sees of a node: a directory, or a file and its content.\<close>

datatype entry = DirE | FileE bytes

fun entry_of :: "node \<Rightarrow> entry" where
  "entry_of (File b) = FileE b"
| "entry_of (Dir es) = DirE"

definition stat :: "path \<Rightarrow> node \<Rightarrow> entry option" where
  "stat p n = map_option entry_of (lookup p n)"

text \<open>\<open>MkdirAll\<close>: every missing directory on the path is created; a regular file on
  the path is an error, an existing directory is not. The file-system operations return
  the error number; the primitives of each library build that library's error value.\<close>

fun mkdir_all :: "path \<Rightarrow> node \<Rightarrow> string + node" where
  "mkdir_all [] n =
     (case n of Dir es \<Rightarrow> Inr n | File b \<Rightarrow> Inl ''ENOTDIR'')"
| "mkdir_all (c # cs) n =
     (case n of
        File b \<Rightarrow> Inl ''ENOTDIR''
      | Dir es \<Rightarrow>
          (case mkdir_all cs (case map_of es c of None \<Rightarrow> Dir [] | Some m \<Rightarrow> m) of
             Inl e \<Rightarrow> Inl e
           | Inr m' \<Rightarrow> Inr (Dir (AList.update c m' es))))"

text \<open>\<open>Create\<close>: the file is created empty, or truncated when it exists; the parent
  must be an existing directory and the path itself must not be a directory.\<close>

fun create_file :: "path \<Rightarrow> node \<Rightarrow> string + node" where
  "create_file [] n = Inl ''EISDIR''"
| "create_file [c] n =
     (case n of
        File b \<Rightarrow> Inl ''ENOTDIR''
      | Dir es \<Rightarrow>
          (case map_of es c of
             Some (Dir ds) \<Rightarrow> Inl ''EISDIR''
           | _ \<Rightarrow> Inr (Dir (AList.update c (File []) es))))"
| "create_file (c # cs) n =
     (case n of
        File b \<Rightarrow> Inl ''ENOTDIR''
      | Dir es \<Rightarrow>
          (case map_of es c of
             None \<Rightarrow> Inl ''ENOENT''
           | Some m \<Rightarrow>
               (case create_file cs m of
                  Inl e \<Rightarrow> Inl e
                | Inr m' \<Rightarrow> Inr (Dir (AList.update c m' es)))))"

text \<open>Writing through an open file handle replaces the content of the file at the
  handle's path; nothing else changes.\<close>

fun write_file :: "path \<Rightarrow> bytes \<Rightarrow> node \<Rightarrow> node" where
  "write_file [] b n = (case n of File old \<Rightarrow> File b | Dir es \<Rightarrow> n)"
| "write_file (c # cs) b n =
     (case n of
        File old \<Rightarrow> n
      | Dir es \<Rightarrow>
          (case map_of es c of
             None \<Rightarrow> n
           | Some m \<Rightarrow> Dir (AList.update c (write_file cs b m) es)))"

section \<open>The world the client runs in\<close>

text \<open>
  A host-key callback of \<open>ssh.ClientConfig\<close>: a check against a store of known hosts,
  or \<open>ssh.InsecureIgnoreHostKey()\<close>, which accepts every key.
\<close>

type_synonym host_key = string

datatype host_key_callback =
    KnownHostsCallback "(string \<times> host_key) list"
  | InsecureIgnoreHostKey

text \<open>
  The operations the client asks of its libraries. \<open>CopyUp src dst\<close> is \<open>io.Copy\<close> from
  the local file \<open>src\<close> to the remote file \<open>dst\<close>, \<open>CopyDown src dst\<close> from the remote
  file \<open>src\<close> to the local file \<open>dst\<close>.
\<close>

datatype op =
    OsStat path | OsLstat path | OsReadDir path | OsOpen path | OsCreate path
  | OsMkdirAll path | OsSync path | OsClose path
  | SftpNewClient | SftpClientClose
  | SftpStat path | SftpLstat path | SftpReadDir path | SftpOpen path | SftpCreate path
  | SftpMkdirAll path | SftpFileClose path
  | CopyUp path path | CopyDown path path
  | LoadKnownHosts
  | SshDial string string "host_key_callback option"
  | SshNewSession | SshCombinedOutput string | SshSessionClose | SshClientClose

text \<open>
  The state: the local and the remote file system, the transport connection of the
  client (\<open>conn_open\<close>), and the trace of the operations performed so far, each with
  the error it returned. The rest is the environment, which no operation changes:
  \<open>fault\<close> makes an operation fail for a reason outside the model (network, permissions,
  disk), \<open>partial\<close> is the number of bytes a failing copy has written, \<open>exec\<close> is what
  the remote host answers to a command (merged output and exit error), \<open>known_hosts\<close>
  is the result of loading the default known-hosts store, \<open>host_keys\<close> the key each
  address presents.
\<close>

record world =
  localfs :: node
  remotefs :: node
  conn_open :: bool
  trace :: "(op \<times> error option) list"
  fault :: "op \<Rightarrow> error option"
  partial :: nat
  exec :: "string \<Rightarrow> bytes \<times> error option"
  known_hosts :: "error + (string \<times> host_key) list"
  host_keys :: "string \<Rightarrow> host_key"

definition log :: "op \<Rightarrow> error option \<Rightarrow> world \<Rightarrow> world" where
  "log opn r w = w\<lparr>trace := trace w @ [(opn, r)]\<rparr>"

text \<open>One library call: it fails when the environment says so, otherwise it does what
  the state allows; either way the call and its error are appended to the trace.\<close>

definition attempt ::
  "op \<Rightarrow> (world \<Rightarrow> error + 'a \<times> world) \<Rightarrow> world \<Rightarrow> (error + 'a) \<times> world" where
  "attempt opn act w =
     (case fault w opn of
        Some e \<Rightarrow> (Inl e, log opn (Some e) w)
      | None \<Rightarrow>
          (case act w of
             Inl e \<Rightarrow> (Inl e, log opn (Some e) w)
           | Inr (x, w') \<Rightarrow> (Inr x, log opn None w')))"

fun err_of :: "error + 'a \<Rightarrow> error option" where
  "err_of (Inl e) = Some e"
| "err_of (Inr x) = None"

subsection \<open>Package os\<close>

datatype os_file = OsFile path

definition os_Stat :: "path \<Rightarrow> world \<Rightarrow> (error + file_info) \<times> world" where
  "os_Stat p =
     attempt (OsStat p) (\<lambda>w.
       case lookup p (localfs w) of
         None \<Rightarrow> Inl (PathError ''stat'' p ''ENOENT'')
       | Some n \<Rightarrow> Inr (info_of n, w))"

definition os_Lstat :: "path \<Rightarrow> world \<Rightarrow> (error + node) \<times> world" where
  "os_Lstat p =
     attempt (OsLstat p) (\<lambda>w.
       case lookup p (localfs w) of
         None \<Rightarrow> Inl (PathError ''lstat'' p ''ENOENT'')
       | Some n \<Rightarrow> Inr (n, w))"

definition os_Open :: "path \<Rightarrow> world \<Rightarrow> (error + os_file) \<times> world" where
  "os_Open p =
     attempt (OsOpen p) (\<lambda>w.
       case lookup p (localfs w) of
         None \<Rightarrow> Inl (PathError ''open'' p ''ENOENT'')
       | Some n \<Rightarrow> Inr (OsFile p, w))"

definition os_Create :: "path \<Rightarrow> world \<Rightarrow> (error + os_file) \<times> world" where
  "os_Create p =
     attempt (OsCreate p) (\<lambda>w.
       case create_file p (localfs w) of
         Inl c \<Rightarrow> Inl (PathError ''open'' p c)
       | Inr fs \<Rightarrow> Inr (OsFile p, w\<lparr>localfs := fs\<rparr>))"

definition os_MkdirAll :: "path \<Rightarrow> world \<Rightarrow> (error + unit) \<times> world" where
  "os_MkdirAll p =
     attempt (OsMkdirAll p) (\<lambda>w.
       case mkdir_all p (localfs w) of
         Inl c \<Rightarrow> Inl (PathError ''mkdir'' p c)
       | Inr fs \<Rightarrow> Inr ((), w\<lparr>localfs := fs\<rparr>))"

fun os_File_Sync :: "os_file \<Rightarrow> world \<Rightarrow> (error + unit) \<times> world" where
  "os_File_Sync (OsFile p) = attempt (OsSync p) (\<lambda>w. Inr ((), w))"

fun os_File_Close :: "os_file \<Rightarrow> world \<Rightarrow> (error + unit) \<times> world" where
  "os_File_Close (OsFile p) = attempt (OsClose p) (\<lambda>w. Inr ((), w))"

subsection \<open>Package sftp\<close>

datatype sftp_client = SftpClient

datatype sftp_file = SftpFile path

text \<open>\<open>sftp.NewClient\<close> opens a file-transfer sub-channel on the connection.\<close>

definition sftp_NewClient :: "world \<Rightarrow> (error + sftp_client) \<times> world" where
  "sftp_NewClient =
     attempt SftpNewClient (\<lambda>w.
       if conn_open w then Inr (SftpClient, w)
       else Inl (PlainError ''use of closed network connection''))"

fun sftp_Client_Close :: "sftp_client \<Rightarrow> world \<Rightarrow> (error + unit) \<times> world" where
  "sftp_Client_Close SftpClient = attempt SftpClientClose (\<lambda>w. Inr ((), w))"

definition sftp_Stat :: "path \<Rightarrow> world \<Rightarrow> (error + file_info) \<times> world" where
  "sftp_Stat p =
     attempt (SftpStat p) (\<lambda>w.
       case lookup p (remotefs w) of
         None \<Rightarrow> Inl (StatusError ''file does not exist'')
       | Some n \<Rightarrow> Inr (info_of n, w))"

definition sftp_Lstat :: "path \<Rightarrow> world \<Rightarrow> (error + node) \<times> world" where
  "sftp_Lstat p =
     attempt (SftpLstat p) (\<lambda>w.
       case lookup p (remotefs w) of
         None \<Rightarrow> Inl (StatusError ''file does not exist'')
       | Some n \<Rightarrow> Inr (n, w))"

definition sftp_Open :: "path \<Rightarrow> world \<Rightarrow> (error + sftp_file) \<times> world" where
  "sftp_Open p =
     attempt (SftpOpen p) (\<lambda>w.
       case lookup p (remotefs w) of
         None \<Rightarrow> Inl (StatusError ''file does not exist'')
       | Some n \<Rightarrow> Inr (SftpFile p, w))"

definition sftp_Create :: "path \<Rightarrow> world \<Rightarrow> (error + sftp_file) \<times> world" where
  "sftp_Create p =
     attempt (SftpCreate p) (\<lambda>w.
       case create_file p (remotefs w) of
         Inl c \<Rightarrow> Inl (StatusError c)
       | Inr fs \<Rightarrow> Inr (SftpFile p, w\<lparr>remotefs := fs\<rparr>))"

definition sftp_MkdirAll :: "path \<Rightarrow> world \<Rightarrow> (error + unit) \<times> world" where
  "sftp_MkdirAll p =
     attempt (SftpMkdirAll p) (\<lambda>w.
       case mkdir_all p (remotefs w) of
         Inl c \<Rightarrow> Inl (PathError ''mkdir'' p c)
       | Inr fs \<Rightarrow> Inr ((), w\<lparr>remotefs := fs\<rparr>))"

fun sftp_File_Close :: "sftp_file \<Rightarrow> world \<Rightarrow> (error + unit) \<times> world" where
  "sftp_File_Close (SftpFile p) = attempt (SftpFileClose p) (\<lambda>w. Inr ((), w))"

subsection \<open>io.Copy\<close>

text \<open>
  \<open>io.Copy(dst, src)\<close> reads the source to its end and writes it to the destination.
  A copy that fails has written the first \<open>partial\<close> bytes. Reading a directory fails.
\<close>

fun io_Copy_up :: "sftp_file \<Rightarrow> os_file \<Rightarrow> world \<Rightarrow> error option \<times> world" where
  "io_Copy_up (SftpFile dst) (OsFile src) w =
     (case lookup src (localfs w) of
        Some (File b) \<Rightarrow>
          (case fault w (CopyUp src dst) of
             Some e \<Rightarrow>
               (Some e, log (CopyUp src dst) (Some e)
                  (w\<lparr>remotefs := write_file dst (take (partial w) b) (remotefs w)\<rparr>))
           | None \<Rightarrow>
               (None, log (CopyUp src dst) None
                  (w\<lparr>remotefs := write_file dst b (remotefs w)\<rparr>)))
      | _ \<Rightarrow>
          (Some (PathError ''read'' src ''EISDIR''),
           log (CopyUp src dst) (Some (PathError ''read'' src ''EISDIR'')) w))"

fun io_Copy_down :: "os_file \<Rightarrow> sftp_file \<Rightarrow> world \<Rightarrow> error option \<times> world" where
  "io_Copy_down (OsFile dst) (SftpFile src) w =
     (case lookup src (remotefs w) of
        Some (File b) \<Rightarrow>
          (case fault w (CopyDown src dst) of
             Some e \<Rightarrow>
               (Some e, log (CopyDown src dst) (Some e)
                  (w\<lparr>localfs := write_file dst (take (partial w) b) (localfs w)\<rparr>))
           | None \<Rightarrow>
               (None, log (CopyDown src dst) None
                  (w\<lparr>localfs := write_file dst b (localfs w)\<rparr>)))
      | _ \<Rightarrow>
          (Some (StatusError ''Failure''),
           log (CopyDown src dst) (Some (StatusError ''Failure'')) w))"

section \<open>Walking a tree\<close>

text \<open>
  \<open>filepath.Walk\<close>: the callback sees the root, then, for a directory, its entries in
  the order of the directory read, each walked in turn. A directory is read before the
  callback sees it, and the callback gets the error of the read; an entry whose
  \<open>lstat\<close> fails is passed to the callback with that error. A non-nil result of
  the callback ends the walk. (\<open>filepath.SkipDir\<close> is not modelled: the callbacks of
  this client never return it.) The walk follows the tree found at the root when it
  started; the transfers below never write to the file system they walk.
\<close>

type_synonym walk_fn = "path \<Rightarrow> file_info \<Rightarrow> error option \<Rightarrow> world \<Rightarrow> error option \<times> world"

function filepath_walk :: "walk_fn \<Rightarrow> path \<Rightarrow> node \<Rightarrow> world \<Rightarrow> error option \<times> world"
  and filepath_walk_names ::
    "walk_fn \<Rightarrow> path \<Rightarrow> (string \<times> node) list \<Rightarrow> world \<Rightarrow> error option \<times> world"
where
  "filepath_walk fn p (File b) w = fn p (FileInfo False) None w"
| "filepath_walk fn p (Dir es) w =
     (case attempt (OsReadDir p) (\<lambda>w. Inr ((), w)) w of
        (r, w1) \<Rightarrow>
          (case fn p (FileInfo True) (err_of r) w1 of
             (err1, w2) \<Rightarrow>
               if err_of r \<noteq> None \<or> err1 \<noteq> None then (err1, w2)
               else filepath_walk_names fn p es w2))"
| "filepath_walk_names fn p [] w = (None, w)"
| "filepath_walk_names fn p ((name, n) # es) w =
     (case attempt (OsLstat (filepath_Join p [name])) (\<lambda>w. Inr ((), w)) w of
        (Inl err, w1) \<Rightarrow>
          (case fn (filepath_Join p [name]) (FileInfo False) (Some err) w1 of
             (Some e, w2) \<Rightarrow> (Some e, w2)
           | (None, w2) \<Rightarrow> filepath_walk_names fn p es w2)
      | (Inr u, w1) \<Rightarrow>
          (case filepath_walk fn (filepath_Join p [name]) n w1 of
             (Some e, w2) \<Rightarrow> (Some e, w2)
           | (None, w2) \<Rightarrow> filepath_walk_names fn p es w2))"
  by pat_completeness auto
termination
  by (relation "measure (\<lambda>x. case x of
         Inl (fn, p, n, w) \<Rightarrow> size n
       | Inr (fn, p, es, w) \<Rightarrow> size_list (size_prod (\<lambda>x. 0) size) es)") auto

definition filepath_Walk :: "path \<Rightarrow> walk_fn \<Rightarrow> world \<Rightarrow> error option \<times> world" where
  "filepath_Walk root fn w =
     (case os_Lstat root w of
        (Inl err, w1) \<Rightarrow> fn root (FileInfo False) (Some err) w1
      | (Inr n, w1) \<Rightarrow> filepath_walk fn root n w1)"

text \<open>
  The walker of the sftp client (\<open>Walk\<close>, \<open>Step\<close>, \<open>Err\<close>, \<open>Path\<close>, \<open>Stat\<close>) with the
  loop that consumes it: the body of the loop is the callback, a body that returns
  ends the loop, a body that falls through or continues goes on to the next step. The
  walker reads a directory at the step after the one that visited it; when the read
  fails, the directory is visited once more with the error.
\<close>

function sftp_walk :: "walk_fn \<Rightarrow> path \<Rightarrow> node \<Rightarrow> world \<Rightarrow> error option \<times> world"
  and sftp_walk_names ::
    "walk_fn \<Rightarrow> path \<Rightarrow> (string \<times> node) list \<Rightarrow> world \<Rightarrow> error option \<times> world"
where
  "sftp_walk body p (File b) w = body p (FileInfo False) None w"
| "sftp_walk body p (Dir es) w =
     (case body p (FileInfo True) None w of
        (Some e, w1) \<Rightarrow> (Some e, w1)
      | (None, w1) \<Rightarrow>
          (case attempt (SftpReadDir p) (\<lambda>w. Inr ((), w)) w1 of
             (Inl err, w2) \<Rightarrow> body p (FileInfo True) (Some err) w2
           | (Inr u, w2) \<Rightarrow> sftp_walk_names body p es w2))"
| "sftp_walk_names body p [] w = (None, w)"
| "sftp_walk_names body p ((name, n) # es) w =
     (case sftp_walk body (filepath_Join p [name]) n w of
        (Some e, w1) \<Rightarrow> (Some e, w1)
      | (None, w1) \<Rightarrow> sftp_walk_names body p es w1)"
  by pat_completeness auto
termination
  by (relation "measure (\<lambda>x. case x of
         Inl (fn, p, n, w) \<Rightarrow> size n
       | Inr (fn, p, es, w) \<Rightarrow> size_list (size_prod (\<lambda>x. 0) size) es)") auto

definition sftp_Walk :: "path \<Rightarrow> walk_fn \<Rightarrow> world \<Rightarrow> error option \<times> world" where
  "sftp_Walk root body w =
     (case sftp_Lstat root w of
        (Inl err, w1) \<Rightarrow> body root (FileInfo False) (Some err) w1
      | (Inr n, w1) \<Rightarrow> sftp_walk body root n w1)"

section \<open>Package ssh\<close>

type_synonym auth = "string list"

record client_config =
  cc_User :: string
  cc_Auth :: auth
  cc_Timeout :: int
  cc_HostKeyCallback :: "host_key_callback option"
  cc_BannerCallback :: "string option"

fun check_host_key :: "host_key_callback \<Rightarrow> string \<Rightarrow> host_key \<Rightarrow> error option" where
  "check_host_key InsecureIgnoreHostKey addr k = None"
| "check_host_key (KnownHostsCallback store) addr k =
     (case map_of store addr of
        None \<Rightarrow> Some (PlainError ''knownhosts: key is unknown'')
      | Some k' \<Rightarrow> if k' = k then None else Some (PlainError ''knownhosts: key mismatch''))"

text \<open>
  \<open>ssh.Dial\<close>: the handshake refuses a configuration whose \<open>HostKeyCallback\<close> is nil,
  otherwise the callback decides on the key the host presents. Network and
  authentication failures come from the environment.
\<close>

definition ssh_Dial :: "string \<Rightarrow> string \<Rightarrow> client_config \<Rightarrow> world \<Rightarrow> (error + unit) \<times> world" where
  "ssh_Dial proto addr cc =
     attempt (SshDial proto addr (cc_HostKeyCallback cc)) (\<lambda>w.
       case cc_HostKeyCallback cc of
         None \<Rightarrow> Inl (PlainError ''ssh: must specify HostKeyCallback'')
       | Some cb \<Rightarrow>
           (case check_host_key cb addr (host_keys w addr) of
              Some e \<Rightarrow> Inl e
            | None \<Rightarrow> Inr ((), w\<lparr>conn_open := True\<rparr>)))"

definition ssh_NewSession :: "world \<Rightarrow> (error + unit) \<times> world" where
  "ssh_NewSession =
     attempt SshNewSession (\<lambda>w.
       if conn_open w then Inr ((), w)
       else Inl (PlainError ''use of closed network connection''))"

definition ssh_Session_CombinedOutput :: "string \<Rightarrow> world \<Rightarrow> (bytes \<times> error option) \<times> world" where
  "ssh_Session_CombinedOutput cmd w =
     (case fault w (SshCombinedOutput cmd) of
        Some e \<Rightarrow> (([], Some e), log (SshCombinedOutput cmd) (Some e) w)
      | None \<Rightarrow> (exec w cmd, log (SshCombinedOutput cmd) (snd (exec w cmd)) w))"

definition ssh_Session_Close :: "world \<Rightarrow> (error + unit) \<times> world" where
  "ssh_Session_Close = attempt SshSessionClose (\<lambda>w. Inr ((), w))"

text \<open>Closing the connection of the client closes the network connection under it;
  closing a network connection that is closed already is an error of package \<open>net\<close>.\<close>

definition ssh_Client_Close :: "world \<Rightarrow> (error + unit) \<times> world" where
  "ssh_Client_Close =
     attempt SshClientClose (\<lambda>w.
       if conn_open w then Inr ((), w\<lparr>conn_open := False\<rparr>)
       else Inl (PlainError ''use of closed network connection''))"

section \<open>The client\<close>

text \<open>
  \<open>Config\<close> as the source declares it. The \<open>*ssh.Client\<close> embedded in \<open>Client\<close> is
  the connection of the world; the methods are modelled for a client whose connection
  was dialled, so that the embedded pointer is not nil.
\<close>

record config =
  Auth :: auth
  User :: string
  Addr :: string
  Port :: nat
  Timeout :: int
  Callback :: "host_key_callback option"
  BannerCallback :: "string option"

record client =
  Config :: config

definition DefaultTimeout :: int where
  "DefaultTimeout = 20 * 1000000000"

fun digit_char :: "nat \<Rightarrow> char" where
  "digit_char n = ''0123456789'' ! (n mod 10)"

function fmt_Sprint :: "nat \<Rightarrow> string" where
  "fmt_Sprint n = (if n < 10 then [digit_char n] else fmt_Sprint (n div 10) @ [digit_char n])"
  by pat_completeness auto
termination
  by (relation "measure id") auto

declare fmt_Sprint.simps [simp del]

definition net_JoinHostPort :: "string \<Rightarrow> string \<Rightarrow> string" where
  "net_JoinHostPort host port =
     (if CHR '':'' \<in> set host \<or> CHR ''%'' \<in> set host then ''['' @ host @ '']:'' @ port
      else host @ '':'' @ port)"

text \<open>Modelled from the spec: \<open>DefaultKnownHosts\<close> is declared in a file of the
  repository that is not among the sources; by the specification the strict policy is
  a check against a trust store of known hosts, so it returns the callback that checks
  against the default store, or the error of loading that store.\<close>

definition DefaultKnownHosts :: "world \<Rightarrow> (error + host_key_callback) \<times> world" where
  "DefaultKnownHosts =
     attempt LoadKnownHosts (\<lambda>w.
       case known_hosts w of
         Inl e \<Rightarrow> Inl e
       | Inr store \<Rightarrow> Inr (KnownHostsCallback store, w))"

definition Dial :: "string \<Rightarrow> config \<Rightarrow> world \<Rightarrow> (error + unit) \<times> world" where
  "Dial proto c =
     ssh_Dial proto (net_JoinHostPort (Addr c) (fmt_Sprint (Port c)))
       \<lparr>cc_User = User c, cc_Auth = Auth c, cc_Timeout = Timeout c,
        cc_HostKeyCallback = Callback c, cc_BannerCallback = BannerCallback c\<rparr>"

definition NewConn :: "config \<Rightarrow> world \<Rightarrow> (client option \<times> error option) \<times> world" where
  "NewConn cfg w =
     (case Dial ''tcp'' cfg w of
        (r, w1) \<Rightarrow> ((Some \<lparr>Config = cfg\<rparr>, err_of r), w1))"

definition New :: "string \<Rightarrow> string \<Rightarrow> auth \<Rightarrow> world \<Rightarrow> (client option \<times> error option) \<times> world" where
  "New user addr au w =
     (case DefaultKnownHosts w of
        (Inl err, w1) \<Rightarrow> ((None, Some err), w1)
      | (Inr callback, w1) \<Rightarrow>
          NewConn \<lparr>Auth = au, User = user, Addr = addr, Port = 22, Timeout = DefaultTimeout,
                   Callback = Some callback, BannerCallback = None\<rparr> w1)"

definition NewUnknown ::
  "string \<Rightarrow> string \<Rightarrow> auth \<Rightarrow> world \<Rightarrow> (client option \<times> error option) \<times> world" where
  "NewUnknown user addr au w =
     NewConn \<lparr>Auth = au, User = user, Addr = addr, Port = 22, Timeout = DefaultTimeout,
              Callback = Some InsecureIgnoreHostKey, BannerCallback = None\<rparr> w"

text \<open>\<open>Run\<close>: the deferred \<open>sess.Close()\<close> runs after the result of
  \<open>CombinedOutput\<close> is computed, and its own result is discarded.\<close>

definition Run :: "string \<Rightarrow> world \<Rightarrow> (bytes \<times> error option) \<times> world" where
  "Run cmd w =
     (case ssh_NewSession w of
        (Inl err, w1) \<Rightarrow> (([], Some err), w1)
      | (Inr sess, w1) \<Rightarrow>
          (case ssh_Session_CombinedOutput cmd w1 of
             (r, w2) \<Rightarrow> (r, snd (ssh_Session_Close w2))))"

definition Close :: "world \<Rightarrow> error option \<times> world" where
  "Close w = (case ssh_Client_Close w of (r, w1) \<Rightarrow> (err_of r, w1))"

subsection \<open>Upload\<close>

definition uploadFile :: "path \<Rightarrow> path \<Rightarrow> world \<Rightarrow> error option \<times> world" where
  "uploadFile srcPath dstPath w =
     (case sftp_NewClient w of
        (Inl err, w1) \<Rightarrow> (Some (WrapError ''failed to create sftp client'' err), w1)
      | (Inr sftpClient, w1) \<Rightarrow>
          (case
             (case os_Open srcPath w1 of
                (Inl err, w2) \<Rightarrow> (Some (WrapError ''failed to open source file'' err), w2)
              | (Inr srcFile, w2) \<Rightarrow>
                  (case
                     (case sftp_Create dstPath w2 of
                        (Inl err, w3) \<Rightarrow>
                          (Some (WrapError ''failed to create remote file'' err), w3)
                      | (Inr dstFile, w3) \<Rightarrow>
                          (case io_Copy_up dstFile srcFile w3 of
                             (err, w4) \<Rightarrow> (err, snd (sftp_File_Close dstFile w4))))
                   of (err, w5) \<Rightarrow> (err, snd (os_File_Close srcFile w5))))
           of (err, w6) \<Rightarrow> (err, snd (sftp_Client_Close sftpClient w6))))"

text \<open>The callback of the walk in \<open>uploadDirectory\<close>. The result of
  \<open>sftpClient.MkdirAll\<close> is not looked at.\<close>

definition upload_visit :: "path \<Rightarrow> path \<Rightarrow> walk_fn" where
  "upload_visit srcDir dstDir path info err w =
     (case err of
        Some e \<Rightarrow> (Some e, w)
      | None \<Rightarrow>
          (case filepath_Rel srcDir path of
             Inl e \<Rightarrow> (Some e, w)
           | Inr relPath \<Rightarrow>
               if IsDir info then (None, snd (sftp_MkdirAll (filepath_Join dstDir relPath) w))
               else
                 (case os_Open path w of
                    (Inl e, w1) \<Rightarrow> (Some e, w1)
                  | (Inr srcFile, w1) \<Rightarrow>
                      (case
                         (case sftp_Create (filepath_Join dstDir relPath) w1 of
                            (Inl e, w2) \<Rightarrow> (Some e, w2)
                          | (Inr dstFile, w2) \<Rightarrow>
                              (case io_Copy_up dstFile srcFile w2 of
                                 (e, w3) \<Rightarrow> (e, snd (sftp_File_Close dstFile w3))))
                       of (e, w4) \<Rightarrow> (e, snd (os_File_Close srcFile w4))))))"

definition uploadDirectory :: "path \<Rightarrow> path \<Rightarrow> world \<Rightarrow> error option \<times> world" where
  "uploadDirectory srcDir dstDir w =
     (case sftp_NewClient w of
        (Inl err, w1) \<Rightarrow> (Some (WrapError ''failed to create sftp client'' err), w1)
      | (Inr sftpClient, w1) \<Rightarrow>
          (case filepath_Walk srcDir (upload_visit srcDir dstDir) w1 of
             (err, w2) \<Rightarrow> (err, snd (sftp_Client_Close sftpClient w2))))"

definition Upload :: "path \<Rightarrow> path \<Rightarrow> world \<Rightarrow> error option \<times> world" where
  "Upload srcPath dstPath w =
     (case os_Stat srcPath w of
        (Inl err, w1) \<Rightarrow> (Some (WrapError ''failed to stat source path'' err), w1)
      | (Inr st, w1) \<Rightarrow>
          if IsDir st then uploadDirectory srcPath dstPath w1
          else uploadFile srcPath dstPath w1)"

definition UploadV1 :: "path \<Rightarrow> path \<Rightarrow> world \<Rightarrow> error option \<times> world" where
  "UploadV1 localPath remotePath w =
     (case os_Open localPath w of
        (Inl err, w1) \<Rightarrow> (Some err, w1)
      | (Inr local, w1) \<Rightarrow>
          (case
             (case sftp_NewClient w1 of
                (Inl err, w2) \<Rightarrow> (Some err, w2)
              | (Inr ftp, w2) \<Rightarrow>
                  (case
                     (case sftp_Create remotePath w2 of
                        (Inl err, w3) \<Rightarrow> (Some err, w3)
                      | (Inr remote, w3) \<Rightarrow>
                          (case io_Copy_up remote local w3 of
                             (err, w4) \<Rightarrow> (err, snd (sftp_File_Close remote w4))))
                   of (err, w5) \<Rightarrow> (err, snd (sftp_Client_Close ftp w5))))
           of (err, w6) \<Rightarrow> (err, snd (os_File_Close local w6))))"

subsection \<open>Download\<close>

definition downloadFile :: "path \<Rightarrow> path \<Rightarrow> world \<Rightarrow> error option \<times> world" where
  "downloadFile remotePath localPath w =
     (case sftp_Open remotePath w of
        (Inl err, w1) \<Rightarrow> (Some (WrapError ''failed to open remote file'' err), w1)
      | (Inr srcFile, w1) \<Rightarrow>
          (case
             (case os_MkdirAll (filepath_Dir localPath) w1 of
                (Inl err, w2) \<Rightarrow>
                  (Some (WrapError ''failed to create local directories'' err), w2)
              | (Inr u, w2) \<Rightarrow>
                  (case os_Create localPath w2 of
                     (Inl err, w3) \<Rightarrow>
                       (Some (WrapError ''failed to create local file'' err), w3)
                   | (Inr dstFile, w3) \<Rightarrow>
                       (case
                          (case io_Copy_down dstFile srcFile w3 of
                             (Some err, w4) \<Rightarrow>
                               (Some (WrapError ''failed to copy data'' err), w4)
                           | (None, w4) \<Rightarrow>
                               (case os_File_Sync dstFile w4 of
                                  (r, w5) \<Rightarrow> (err_of r, w5)))
                        of (err, w6) \<Rightarrow> (err, snd (os_File_Close dstFile w6)))))
           of (err, w7) \<Rightarrow> (err, snd (sftp_File_Close srcFile w7))))"

text \<open>The body of the loop in \<open>downloadDirectory\<close>.\<close>

definition download_step :: "path \<Rightarrow> path \<Rightarrow> walk_fn" where
  "download_step remoteDir localDir path info err w =
     (case err of
        Some e \<Rightarrow> (Some e, w)
      | None \<Rightarrow>
          (case filepath_Rel remoteDir path of
             Inl e \<Rightarrow> (Some (WrapError ''failed to get relative path'' e), w)
           | Inr relPath \<Rightarrow>
               if IsDir info then
                 (case os_MkdirAll (filepath_Join localDir relPath) w of
                    (Inl e, w1) \<Rightarrow>
                      (Some (WrapError ''failed to create local directory'' e), w1)
                  | (Inr u, w1) \<Rightarrow> (None, w1))
               else downloadFile path (filepath_Join localDir relPath) w))"

definition downloadDirectory :: "path \<Rightarrow> path \<Rightarrow> world \<Rightarrow> error option \<times> world" where
  "downloadDirectory remoteDir localDir w =
     sftp_Walk remoteDir (download_step remoteDir localDir) w"

definition Download :: "path \<Rightarrow> path \<Rightarrow> world \<Rightarrow> error option \<times> world" where
  "Download remotePath localPath w =
     (case sftp_NewClient w of
        (Inl err, w1) \<Rightarrow> (Some err, w1)
      | (Inr sftpClient, w1) \<Rightarrow>
          (case
             (case sftp_Stat remotePath w1 of
                (Inl err, w2) \<Rightarrow> (Some (WrapError ''failed to stat remote path'' err), w2)
              | (Inr info, w2) \<Rightarrow>
                  if IsDir info then downloadDirectory remotePath localPath w2
                  else downloadFile remotePath localPath w2)
           of (err, w3) \<Rightarrow> (err, snd (sftp_Client_Close sftpClient w3))))"

section \<open>Well-formed trees\<close>

text \<open>A name of a directory entry is not empty and is neither \<open>.\<close> nor \<open>..\<close>; the
  names of the entries of a directory are distinct.\<close>

definition plain :: "string \<Rightarrow> bool" where
  "plain c = (c \<noteq> '''' \<and> c \<noteq> ''.'' \<and> c \<noteq> ''..'')"

fun wf_node :: "node \<Rightarrow> bool" where
  "wf_node (File b) = True"
| "wf_node (Dir es) =
     (distinct (map fst es) \<and> list_all (\<lambda>e. plain (fst e) \<and> wf_node (snd e)) es)"

section \<open>What a run keeps and what it has written\<close>

text \<open>
  Two relations between the world before and after a run of a transfer, for a source
  file system \<open>src\<close>, a destination file system \<open>dst\<close>, the operation \<open>mk\<close> that
  creates destination directories and the operation \<open>cp\<close> that copies a file. A run
  \<^emph>\<open>keeps\<close> the destination outside a region \<open>inside\<close> when every entry that existed
  outside the region is unchanged and every directory is still a directory. A run
  \<^emph>\<open>has written\<close> what its trace says when the source is unchanged, every directory
  creation that succeeded names a directory of the destination, and every copy that
  succeeded names a destination file, in the region, that holds the bytes of its
  source.
\<close>

definition kept :: "(world \<Rightarrow> node) \<Rightarrow> (path \<Rightarrow> bool) \<Rightarrow> world \<Rightarrow> world \<Rightarrow> bool" where
  "kept dst inside w w' \<longleftrightarrow>
     (\<forall>p e. stat p (dst w) = Some e \<longrightarrow> \<not> inside p \<longrightarrow> stat p (dst w') = Some e) \<and>
     (\<forall>p. stat p (dst w) = Some DirE \<longrightarrow> stat p (dst w') = Some DirE)"

definition written ::
  "(world \<Rightarrow> node) \<Rightarrow> (world \<Rightarrow> node) \<Rightarrow> (path \<Rightarrow> op) \<Rightarrow> (path \<Rightarrow> path \<Rightarrow> op) \<Rightarrow>
   (path \<Rightarrow> bool) \<Rightarrow> world \<Rightarrow> world \<Rightarrow> bool" where
  "written src dst mk cp inside w w' \<longleftrightarrow>
     src w' = src w \<and> fault w' = fault w \<and> partial w' = partial w \<and>
     (\<exists>evs. trace w' = trace w @ evs \<and>
        (\<forall>dd. (mk dd, None) \<in> set evs \<longrightarrow> stat dd (dst w') = Some DirE) \<and>
        (\<forall>ss dd. (cp ss dd, None) \<in> set evs \<longrightarrow>
           inside dd \<and>
           (\<exists>b. lookup ss (src w) = Some (File b) \<and> stat dd (dst w') = Some (FileE b))))"

definition sound_run ::
  "(world \<Rightarrow> node) \<Rightarrow> (world \<Rightarrow> node) \<Rightarrow> (path \<Rightarrow> op) \<Rightarrow> (path \<Rightarrow> path \<Rightarrow> op) \<Rightarrow>
   (path \<Rightarrow> bool) \<Rightarrow> world \<Rightarrow> world \<Rightarrow> bool" where
  "sound_run src dst mk cp inside w w' \<longleftrightarrow>
     kept dst inside w w' \<and> written src dst mk cp inside w w'"

abbreviation up_sound :: "(path \<Rightarrow> bool) \<Rightarrow> world \<Rightarrow> world \<Rightarrow> bool" where
  "up_sound \<equiv> sound_run localfs remotefs SftpMkdirAll CopyUp"

abbreviation down_sound :: "(path \<Rightarrow> bool) \<Rightarrow> world \<Rightarrow> world \<Rightarrow> bool" where
  "down_sound \<equiv> sound_run remotefs localfs OsMkdirAll CopyDown"

section \<open>Reading a trace\<close>

text \<open>The events a run has added to the trace.\<close>

definition new_events :: "world \<Rightarrow> world \<Rightarrow> (op \<times> error option) list" where
  "new_events w w' = drop (length (trace w)) (trace w')"

text \<open>\<open>preceded P Q evs\<close>: every event of \<open>evs\<close> that satisfies \<open>Q\<close> comes after an
  event that satisfies \<open>P\<close>.\<close>

fun preceded :: "('a \<Rightarrow> bool) \<Rightarrow> ('a \<Rightarrow> bool) \<Rightarrow> 'a list \<Rightarrow> bool" where
  "preceded P Q [] = True"
| "preceded P Q (x # xs) = (P x \<or> (\<not> Q x \<and> preceded P Q xs))"

text \<open>The handles a trace leaves open: a successful open, create, new client or new
  session acquires a handle, which the matching close releases, whatever the close
  returns.\<close>

fun acquires :: "op \<times> error option \<Rightarrow> op option" where
  "acquires (OsOpen p, None) = Some (OsClose p)"
| "acquires (OsCreate p, None) = Some (OsClose p)"
| "acquires (SftpNewClient, None) = Some SftpClientClose"
| "acquires (SftpOpen p, None) = Some (SftpFileClose p)"
| "acquires (SftpCreate p, None) = Some (SftpFileClose p)"
| "acquires (SshNewSession, None) = Some SshSessionClose"
| "acquires ev = None"

fun open_handles :: "op list \<Rightarrow> (op \<times> error option) list \<Rightarrow> op list" where
  "open_handles hs [] = hs"
| "open_handles hs (ev # evs) =
     (case acquires ev of
        Some c \<Rightarrow> open_handles (c # hs) evs
      | None \<Rightarrow> open_handles (remove1 (fst ev) hs) evs)"

text \<open>A destination directory creation of an upload that failed.\<close>

fun failed_mkdir :: "op \<times> error option \<Rightarrow> bool" where
  "failed_mkdir (SftpMkdirAll p, Some e) = True"
| "failed_mkdir ev = False"

section \<open>Failing fast\<close>

text \<open>
  The operations that release a handle, the operations whose error an upload does not
  report (a close, and the creation of a destination directory), and the error under
  the wrappings of \<open>fmt.Errorf\<close>. \<open>fail_fast D r evs\<close> reads a trace: the first failed
  operation that is not in \<open>D\<close> is followed by nothing but closes and its error is
  the result \<open>r\<close>, up to wrapping; when there is no such failure the result is no
  error.
\<close>

fun is_close :: "op \<Rightarrow> bool" where
  "is_close (OsClose p) = True"
| "is_close SftpClientClose = True"
| "is_close (SftpFileClose p) = True"
| "is_close SshSessionClose = True"
| "is_close SshClientClose = True"
| "is_close opn = False"

fun dropped_up :: "op \<Rightarrow> bool" where
  "dropped_up (SftpMkdirAll p) = True"
| "dropped_up opn = is_close opn"

fun root_cause :: "error \<Rightarrow> error" where
  "root_cause (WrapError m e) = root_cause e"
| "root_cause e = e"

fun fail_fast :: "(op \<Rightarrow> bool) \<Rightarrow> error option \<Rightarrow> (op \<times> error option) list \<Rightarrow> bool" where
  "fail_fast D r [] = (r = None)"
| "fail_fast D r ((opn, None) # evs) = fail_fast D r evs"
| "fail_fast D r ((opn, Some e) # evs) =
     (if D opn then fail_fast D r evs
      else (case r of None \<Rightarrow> False | Some e' \<Rightarrow> root_cause e' = root_cause e) \<and>
           list_all (\<lambda>ev. is_close (fst ev)) evs)"

section \<open>Example worlds\<close>

text \<open>A world with a small local tree, an empty remote file system and an open
  connection, in which nothing fails for a reason outside the model.\<close>

definition ex_world :: world where
  "ex_world =
     \<lparr>localfs = Dir [(''src'', Dir [(''a.txt'', File [1, 2, 3]), (''sub'', Dir [])]),
                     (''f'', File [7, 8])],
      remotefs = Dir [], conn_open = True, trace = [], fault = (\<lambda>x. None), partial = 0,
      exec = (\<lambda>c. ([111, 107], None)), known_hosts = Inr [(''h:22'', ''k'')],
      host_keys = (\<lambda>a. ''k'')\<rparr>"

text \<open>The same world with a session whose \<open>Close\<close> fails.\<close>

definition close_fails_world :: world where
  "close_fails_world =
     ex_world\<lparr>fault := (\<lambda>x. None)(SshSessionClose := Some (PlainError ''EOF''))\<rparr>"

text \<open>A world whose remote file system holds one file.\<close>

definition dl_world :: world where
  "dl_world = ex_world\<lparr>remotefs := Dir [(''g'', File [7, 8])]\<rparr>"

text \<open>A local directory with three files, and an environment in which the copy of
  the second file fails with a status error of the sftp server.\<close>

definition abort_world :: world where
  "abort_world =
     ex_world\<lparr>localfs := Dir [(''src'', Dir [(''a'', File [1]), (''b'', File [2]),
                                              (''c'', File [3])])],
              fault := (\<lambda>x. None)(CopyUp [''src'', ''b''] [''dst'', ''b''] :=
                         Some (StatusError ''Failure''))\<rparr>"

text \<open>A local directory with one empty subdirectory, and a remote file system in
  which the destination path is a regular file.\<close>

definition mkdir_world :: world where
  "mkdir_world =
     ex_world\<lparr>localfs := Dir [(''src'', Dir [(''sub'', Dir [])])],
              remotefs := Dir [(''dst'', File [9])]\<rparr>"

text \<open>The example world with a remote file system in which the destination directory
  exists and holds a regular file under the name of the subdirectory of the source.\<close>

definition collide_world :: world where
  "collide_world = ex_world\<lparr>remotefs := Dir [(''dst'', Dir [(''sub'', File [9])])]\<rparr>"

declare os_File_Sync.simps [simp del] os_File_Close.simps [simp del]
  sftp_Client_Close.simps [simp del] sftp_File_Close.simps [simp del]
  io_Copy_up.simps [simp del] io_Copy_down.simps [simp del]

section \<open>Library calls\<close>

lemma attempt_fail:
  "fst (attempt opn act w) = Inl e \<Longrightarrow> snd (attempt opn act w) = log opn (Some e) w"
  by (auto simp: attempt_def split: option.splits sum.splits)

lemma attempt_cases:
  "(\<exists>e. attempt opn act w = (Inl e, log opn (Some e) w)) \<or>
   (\<exists>x w'. fault w opn = None \<and> act w = Inr (x, w') \<and>
      attempt opn act w = (Inr x, log opn None w'))"
  by (auto simp: attempt_def split: option.splits sum.splits)

lemma fmt_Sprint_22: "fmt_Sprint 22 = ''22''"
  by code_simp

lemma log_simps [simp]:
  "localfs (log opn r w) = localfs w" "remotefs (log opn r w) = remotefs w"
  "conn_open (log opn r w) = conn_open w" "fault (log opn r w) = fault w"
  "partial (log opn r w) = partial w" "trace (log opn r w) = trace w @ [(opn, r)]"
  by (simp_all add: log_def)

lemma attempt_fst:
  "fst (attempt opn act w) =
     (case fault w opn of
        Some e \<Rightarrow> Inl e
      | None \<Rightarrow> (case act w of Inl e \<Rightarrow> Inl e | Inr xw \<Rightarrow> Inr (fst xw)))"
  by (auto simp: attempt_def split: option.splits sum.splits)

lemma attempt_snd:
  "snd (attempt opn act w) =
     log opn (err_of (fst (attempt opn act w)))
       (case fst (attempt opn act w) of
          Inl e \<Rightarrow> w
        | Inr x \<Rightarrow> (case act w of Inl e \<Rightarrow> w | Inr xw \<Rightarrow> snd xw))"
  by (auto simp: attempt_def split: option.splits sum.splits)

lemma attempt_noop_snd:
  "snd (attempt opn (\<lambda>w. Inr (x, w)) w) =
     log opn (err_of (fst (attempt opn (\<lambda>w. Inr (x, w)) w))) w"
  by (auto simp: attempt_def split: option.splits sum.splits)

text \<open>Calls that change the trace only.\<close>

lemma os_Stat_snd [simp]: "snd (os_Stat p w) = log (OsStat p) (err_of (fst (os_Stat p w))) w"
  by (auto simp: os_Stat_def attempt_def split: option.splits)

lemma os_Lstat_snd [simp]: "snd (os_Lstat p w) = log (OsLstat p) (err_of (fst (os_Lstat p w))) w"
  by (auto simp: os_Lstat_def attempt_def split: option.splits)

lemma os_Open_snd [simp]: "snd (os_Open p w) = log (OsOpen p) (err_of (fst (os_Open p w))) w"
  by (auto simp: os_Open_def attempt_def split: option.splits)

lemma os_File_Sync_snd [simp]:
  "snd (os_File_Sync (OsFile p) w) = log (OsSync p) (err_of (fst (os_File_Sync (OsFile p) w))) w"
  by (simp add: os_File_Sync.simps attempt_noop_snd)

lemma os_File_Close_snd [simp]:
  "snd (os_File_Close (OsFile p) w) =
     log (OsClose p) (err_of (fst (os_File_Close (OsFile p) w))) w"
  by (simp add: os_File_Close.simps attempt_noop_snd)

lemma sftp_NewClient_snd [simp]:
  "snd (sftp_NewClient w) = log SftpNewClient (err_of (fst (sftp_NewClient w))) w"
  by (auto simp: sftp_NewClient_def attempt_def split: option.splits)

lemma sftp_Client_Close_snd [simp]:
  "snd (sftp_Client_Close c w) = log SftpClientClose (err_of (fst (sftp_Client_Close c w))) w"
  by (cases c) (simp add: sftp_Client_Close.simps attempt_noop_snd)

lemma sftp_Stat_snd [simp]:
  "snd (sftp_Stat p w) = log (SftpStat p) (err_of (fst (sftp_Stat p w))) w"
  by (auto simp: sftp_Stat_def attempt_def split: option.splits)

lemma sftp_Lstat_snd [simp]:
  "snd (sftp_Lstat p w) = log (SftpLstat p) (err_of (fst (sftp_Lstat p w))) w"
  by (auto simp: sftp_Lstat_def attempt_def split: option.splits)

lemma sftp_Open_snd [simp]:
  "snd (sftp_Open p w) = log (SftpOpen p) (err_of (fst (sftp_Open p w))) w"
  by (auto simp: sftp_Open_def attempt_def split: option.splits)

lemma sftp_File_Close_snd [simp]:
  "snd (sftp_File_Close (SftpFile p) w) =
     log (SftpFileClose p) (err_of (fst (sftp_File_Close (SftpFile p) w))) w"
  by (simp add: sftp_File_Close.simps attempt_noop_snd)

text \<open>Calls that write to a file system: what they leave alone, and what they write.\<close>

lemma os_Create_frame [simp]:
  "trace (snd (os_Create p w)) = trace w @ [(OsCreate p, err_of (fst (os_Create p w)))]"
  "remotefs (snd (os_Create p w)) = remotefs w"
  "fault (snd (os_Create p w)) = fault w"
  "partial (snd (os_Create p w)) = partial w"
  "conn_open (snd (os_Create p w)) = conn_open w"
  by (auto simp: os_Create_def attempt_def log_def split: option.splits sum.splits)

lemma os_Create_localfs:
  "localfs (snd (os_Create p w)) =
     (case fst (os_Create p w) of
        Inl e \<Rightarrow> localfs w
      | Inr f \<Rightarrow> (case create_file p (localfs w) of Inl c \<Rightarrow> localfs w | Inr fs \<Rightarrow> fs))"
  by (auto simp: os_Create_def attempt_def log_def split: option.splits sum.splits)

lemma os_MkdirAll_frame [simp]:
  "trace (snd (os_MkdirAll p w)) = trace w @ [(OsMkdirAll p, err_of (fst (os_MkdirAll p w)))]"
  "remotefs (snd (os_MkdirAll p w)) = remotefs w"
  "fault (snd (os_MkdirAll p w)) = fault w"
  "partial (snd (os_MkdirAll p w)) = partial w"
  "conn_open (snd (os_MkdirAll p w)) = conn_open w"
  by (auto simp: os_MkdirAll_def attempt_def log_def split: option.splits sum.splits)

lemma os_MkdirAll_localfs:
  "localfs (snd (os_MkdirAll p w)) =
     (case fst (os_MkdirAll p w) of
        Inl e \<Rightarrow> localfs w
      | Inr f \<Rightarrow> (case mkdir_all p (localfs w) of Inl c \<Rightarrow> localfs w | Inr fs \<Rightarrow> fs))"
  by (auto simp: os_MkdirAll_def attempt_def log_def split: option.splits sum.splits)

lemma sftp_Create_frame [simp]:
  "trace (snd (sftp_Create p w)) = trace w @ [(SftpCreate p, err_of (fst (sftp_Create p w)))]"
  "localfs (snd (sftp_Create p w)) = localfs w"
  "fault (snd (sftp_Create p w)) = fault w"
  "partial (snd (sftp_Create p w)) = partial w"
  "conn_open (snd (sftp_Create p w)) = conn_open w"
  by (auto simp: sftp_Create_def attempt_def log_def split: option.splits sum.splits)

lemma sftp_Create_remotefs:
  "remotefs (snd (sftp_Create p w)) =
     (case fst (sftp_Create p w) of
        Inl e \<Rightarrow> remotefs w
      | Inr f \<Rightarrow> (case create_file p (remotefs w) of Inl c \<Rightarrow> remotefs w | Inr fs \<Rightarrow> fs))"
  by (auto simp: sftp_Create_def attempt_def log_def split: option.splits sum.splits)

lemma sftp_MkdirAll_frame [simp]:
  "trace (snd (sftp_MkdirAll p w)) =
     trace w @ [(SftpMkdirAll p, err_of (fst (sftp_MkdirAll p w)))]"
  "localfs (snd (sftp_MkdirAll p w)) = localfs w"
  "fault (snd (sftp_MkdirAll p w)) = fault w"
  "partial (snd (sftp_MkdirAll p w)) = partial w"
  "conn_open (snd (sftp_MkdirAll p w)) = conn_open w"
  by (auto simp: sftp_MkdirAll_def attempt_def log_def split: option.splits sum.splits)

lemma sftp_MkdirAll_remotefs:
  "remotefs (snd (sftp_MkdirAll p w)) =
     (case fst (sftp_MkdirAll p w) of
        Inl e \<Rightarrow> remotefs w
      | Inr f \<Rightarrow> (case mkdir_all p (remotefs w) of Inl c \<Rightarrow> remotefs w | Inr fs \<Rightarrow> fs))"
  by (auto simp: sftp_MkdirAll_def attempt_def log_def split: option.splits sum.splits)

lemma io_Copy_up_frame [simp]:
  "trace (snd (io_Copy_up (SftpFile dst) (OsFile src) w)) =
     trace w @ [(CopyUp src dst, fst (io_Copy_up (SftpFile dst) (OsFile src) w))]"
  "localfs (snd (io_Copy_up (SftpFile dst) (OsFile src) w)) = localfs w"
  "fault (snd (io_Copy_up (SftpFile dst) (OsFile src) w)) = fault w"
  "partial (snd (io_Copy_up (SftpFile dst) (OsFile src) w)) = partial w"
  "conn_open (snd (io_Copy_up (SftpFile dst) (OsFile src) w)) = conn_open w"
  by (auto simp: io_Copy_up.simps log_def split: option.splits node.splits)

lemma io_Copy_up_remotefs:
  "remotefs (snd (io_Copy_up (SftpFile dst) (OsFile src) w)) =
     (case lookup src (localfs w) of
        Some (File b) \<Rightarrow>
          write_file dst
            (case fault w (CopyUp src dst) of None \<Rightarrow> b | Some e \<Rightarrow> take (partial w) b)
            (remotefs w)
      | _ \<Rightarrow> remotefs w)"
  by (auto simp: io_Copy_up.simps log_def split: option.splits node.splits)

lemma io_Copy_down_frame [simp]:
  "trace (snd (io_Copy_down (OsFile dst) (SftpFile src) w)) =
     trace w @ [(CopyDown src dst, fst (io_Copy_down (OsFile dst) (SftpFile src) w))]"
  "remotefs (snd (io_Copy_down (OsFile dst) (SftpFile src) w)) = remotefs w"
  "fault (snd (io_Copy_down (OsFile dst) (SftpFile src) w)) = fault w"
  "partial (snd (io_Copy_down (OsFile dst) (SftpFile src) w)) = partial w"
  "conn_open (snd (io_Copy_down (OsFile dst) (SftpFile src) w)) = conn_open w"
  by (auto simp: io_Copy_down.simps log_def split: option.splits node.splits)

lemma io_Copy_down_localfs:
  "localfs (snd (io_Copy_down (OsFile dst) (SftpFile src) w)) =
     (case lookup src (remotefs w) of
        Some (File b) \<Rightarrow>
          write_file dst
            (case fault w (CopyDown src dst) of None \<Rightarrow> b | Some e \<Rightarrow> take (partial w) b)
            (localfs w)
      | _ \<Rightarrow> localfs w)"
  by (auto simp: io_Copy_down.simps log_def split: option.splits node.splits)

text \<open>The result of each call, from the state it is made in.\<close>

lemma os_Stat_fst:
  "fst (os_Stat p w) =
     (case fault w (OsStat p) of
        Some e \<Rightarrow> Inl e
      | None \<Rightarrow>
          (case lookup p (localfs w) of
             None \<Rightarrow> Inl (PathError ''stat'' p ''ENOENT'')
           | Some n \<Rightarrow> Inr (info_of n)))"
  by (auto simp: os_Stat_def attempt_def split: option.splits)

lemma os_Open_fst:
  "fst (os_Open p w) =
     (case fault w (OsOpen p) of
        Some e \<Rightarrow> Inl e
      | None \<Rightarrow>
          (case lookup p (localfs w) of
             None \<Rightarrow> Inl (PathError ''open'' p ''ENOENT'')
           | Some n \<Rightarrow> Inr (OsFile p)))"
  by (auto simp: os_Open_def attempt_def split: option.splits)

lemma sftp_NewClient_fst:
  "fst (sftp_NewClient w) =
     (case fault w SftpNewClient of
        Some e \<Rightarrow> Inl e
      | None \<Rightarrow>
          if conn_open w then Inr SftpClient
          else Inl (PlainError ''use of closed network connection''))"
  by (auto simp: sftp_NewClient_def attempt_def split: option.splits)

lemma sftp_Create_fst:
  "fst (sftp_Create p w) =
     (case fault w (SftpCreate p) of
        Some e \<Rightarrow> Inl e
      | None \<Rightarrow>
          (case create_file p (remotefs w) of
             Inl c \<Rightarrow> Inl (StatusError c)
           | Inr fs \<Rightarrow> Inr (SftpFile p)))"
  by (auto simp: sftp_Create_def attempt_def split: option.splits sum.splits)

lemma io_Copy_up_fst:
  "fst (io_Copy_up (SftpFile dst) (OsFile src) w) =
     (case lookup src (localfs w) of
        Some (File b) \<Rightarrow> fault w (CopyUp src dst)
      | _ \<Rightarrow> Some (PathError ''read'' src ''EISDIR''))"
  by (auto simp: io_Copy_up.simps split: option.splits node.splits)

lemma sftp_Open_fst:
  "fst (sftp_Open p w) =
     (case fault w (SftpOpen p) of
        Some e \<Rightarrow> Inl e
      | None \<Rightarrow>
          (case lookup p (remotefs w) of
             None \<Rightarrow> Inl (StatusError ''file does not exist'')
           | Some n \<Rightarrow> Inr (SftpFile p)))"
  by (auto simp: sftp_Open_def attempt_def split: option.splits)

lemma sftp_Stat_fst:
  "fst (sftp_Stat p w) =
     (case fault w (SftpStat p) of
        Some e \<Rightarrow> Inl e
      | None \<Rightarrow>
          (case lookup p (remotefs w) of
             None \<Rightarrow> Inl (StatusError ''file does not exist'')
           | Some n \<Rightarrow> Inr (info_of n)))"
  by (auto simp: sftp_Stat_def attempt_def split: option.splits)

lemma os_Create_fst:
  "fst (os_Create p w) =
     (case fault w (OsCreate p) of
        Some e \<Rightarrow> Inl e
      | None \<Rightarrow>
          (case create_file p (localfs w) of
             Inl c \<Rightarrow> Inl (PathError ''open'' p c)
           | Inr fs \<Rightarrow> Inr (OsFile p)))"
  by (auto simp: os_Create_def attempt_def split: option.splits sum.splits)

lemma os_MkdirAll_fst:
  "fst (os_MkdirAll p w) =
     (case fault w (OsMkdirAll p) of
        Some e \<Rightarrow> Inl e
      | None \<Rightarrow>
          (case mkdir_all p (localfs w) of
             Inl c \<Rightarrow> Inl (PathError ''mkdir'' p c)
           | Inr fs \<Rightarrow> Inr ()))"
  by (auto simp: os_MkdirAll_def attempt_def split: option.splits sum.splits)

lemma sftp_MkdirAll_fst:
  "fst (sftp_MkdirAll p w) =
     (case fault w (SftpMkdirAll p) of
        Some e \<Rightarrow> Inl e
      | None \<Rightarrow>
          (case mkdir_all p (remotefs w) of
             Inl c \<Rightarrow> Inl (PathError ''mkdir'' p c)
           | Inr fs \<Rightarrow> Inr ()))"
  by (auto simp: sftp_MkdirAll_def attempt_def split: option.splits sum.splits)

lemma io_Copy_down_fst:
  "fst (io_Copy_down (OsFile dst) (SftpFile src) w) =
     (case lookup src (remotefs w) of
        Some (File b) \<Rightarrow> fault w (CopyDown src dst)
      | _ \<Rightarrow> Some (StatusError ''Failure''))"
  by (auto simp: io_Copy_down.simps split: option.splits node.splits)

lemma new_events_append [simp]: "trace w' = trace w @ evs \<Longrightarrow> new_events w w' = evs"
  by (simp add: new_events_def)

lemma os_Lstat_fst:
  "fst (os_Lstat p w) =
     (case fault w (OsLstat p) of
        Some e \<Rightarrow> Inl e
      | None \<Rightarrow>
          (case lookup p (localfs w) of
             None \<Rightarrow> Inl (PathError ''lstat'' p ''ENOENT'')
           | Some n \<Rightarrow> Inr n))"
  by (auto simp: os_Lstat_def attempt_def split: option.splits)

text \<open>The handle a successful open or create returns.\<close>

lemma attempt_handle:
  assumes "fst (attempt opn act w) = Inr x" and "\<And>y w'. act w = Inr (y, w') \<Longrightarrow> y = h"
  shows "x = h \<and> err_of (fst (attempt opn act w)) = None"
  using assms by (auto simp: attempt_def split: option.splits sum.splits)

lemma os_Open_handle:
  "fst (os_Open p w) = Inr f \<Longrightarrow> f = OsFile p \<and> err_of (fst (os_Open p w)) = None"
  unfolding os_Open_def by (erule attempt_handle) (auto split: option.splits)

lemma os_Create_handle:
  "fst (os_Create p w) = Inr f \<Longrightarrow> f = OsFile p \<and> err_of (fst (os_Create p w)) = None"
  unfolding os_Create_def by (erule attempt_handle) (auto split: sum.splits)

lemma sftp_Open_handle:
  "fst (sftp_Open p w) = Inr f \<Longrightarrow> f = SftpFile p \<and> err_of (fst (sftp_Open p w)) = None"
  unfolding sftp_Open_def by (erule attempt_handle) (auto split: option.splits)

lemma sftp_Create_handle:
  "fst (sftp_Create p w) = Inr f \<Longrightarrow> f = SftpFile p \<and> err_of (fst (sftp_Create p w)) = None"
  unfolding sftp_Create_def by (erule attempt_handle) (auto split: sum.splits)

section \<open>What a file-system operation changes\<close>

text \<open>Each operation is described by what \<open>stat\<close> sees afterwards: a created file is
  empty and nothing else changes, a write changes the content of one file, and
  \<open>MkdirAll\<close> makes every prefix of its path a directory and changes nothing else.\<close>

lemma stat_Nil [simp]: "stat [] n = Some (entry_of n)"
  by (simp add: stat_def)

lemma stat_Cons_File [simp]: "stat (c # cs) (File b) = None"
  by (simp add: stat_def)

lemma stat_Cons_Dir [simp]:
  "stat (c # cs) (Dir es) = (case map_of es c of None \<Rightarrow> None | Some m \<Rightarrow> stat cs m)"
  by (simp add: stat_def split: option.splits)

lemma stat_File: "stat p (File b) = (if p = [] then Some (FileE b) else None)"
  by (cases p) auto

lemma stat_Dir_Nil: "stat p (Dir []) = (if p = [] then Some DirE else None)"
  by (cases p) auto

lemma stat_create_file:
  "create_file q n = Inr n' \<Longrightarrow> stat p n' = (if p = q then Some (FileE []) else stat p n)"
proof (induction q n arbitrary: n' p rule: create_file.induct)
  case (1 n)
  then show ?case by simp
next
  case (2 c n)
  then show ?case
    by (cases p) (auto simp: update_conv' stat_File stat_Dir_Nil split: node.splits option.splits if_splits)
next
  case (3 c v va n)
  then show ?case
    by (cases p) (auto simp: update_conv' stat_File stat_Dir_Nil split: node.splits option.splits sum.splits if_splits)
qed

lemma stat_write_file:
  "stat p (write_file q b n) =
     (if p = q \<and> (\<exists>old. stat q n = Some (FileE old)) then Some (FileE b) else stat p n)"
proof (induction q arbitrary: n p)
  case Nil
  then show ?case by (cases p; cases n) auto
next
  case (Cons c cs)
  then show ?case
    by (cases p; cases n) (auto simp: update_conv' stat_File stat_Dir_Nil split: option.splits)
qed

lemma stat_mkdir_all:
  "mkdir_all q n = Inr n' \<Longrightarrow> stat p n' = (if prefix p q then Some DirE else stat p n)"
proof (induction q arbitrary: n n' p)
  case Nil
  then show ?case by (cases p; cases n) (auto split: node.splits)
next
  case (Cons c cs)
  then show ?case
    by (cases p; cases n) (auto simp: update_conv' stat_File stat_Dir_Nil split: option.splits sum.splits if_splits)
qed

lemma stat_FileE: "stat p n = Some (FileE b) \<longleftrightarrow> lookup p n = Some (File b)"
  by (auto simp: stat_def elim: entry_of.elims)

lemma stat_DirE: "stat p n = Some DirE \<longleftrightarrow> (\<exists>es. lookup p n = Some (Dir es))"
  by (auto simp: stat_def elim: entry_of.elims)

text \<open>Entries that exist are kept: \<open>MkdirAll\<close> changes no existing entry, and no
  operation replaces a directory.\<close>

lemma mkdir_all_prefix_dir:
  "mkdir_all q n = Inr n' \<Longrightarrow> prefix p q \<Longrightarrow> stat p n = Some e \<Longrightarrow> e = DirE"
proof (induction q arbitrary: n n' p)
  case Nil
  then show ?case by (cases n) auto
next
  case (Cons c cs)
  show ?case
  proof (cases p)
    case Nil
    with Cons.prems show ?thesis by (cases n) auto
  next
    case (Cons c' p')
    with Cons.prems(2) have cp: "c' = c" "prefix p' cs" by auto
    from Cons.prems(1) obtain es where n: "n = Dir es" by (cases n) auto
    from Cons.prems(3) n \<open>p = c' # p'\<close> cp obtain m where
      m: "map_of es c = Some m" "stat p' m = Some e"
      by (auto split: option.splits)
    from Cons.prems(1) n m obtain m' where "mkdir_all cs m = Inr m'"
      by (auto split: sum.splits)
    from Cons.IH [OF this cp(2) m(2)] show ?thesis .
  qed
qed

lemma mkdir_all_keeps:
  "mkdir_all q n = Inr n' \<Longrightarrow> stat p n = Some e \<Longrightarrow> stat p n' = Some e"
  using mkdir_all_prefix_dir [of q n n' p e] by (simp add: stat_mkdir_all)

lemma create_file_not_dir: "create_file q n = Inr n' \<Longrightarrow> stat q n \<noteq> Some DirE"
proof (induction q n arbitrary: n' rule: create_file.induct)
  case (1 n)
  then show ?case by simp
next
  case (2 c n)
  then obtain es where n: "n = Dir es" by (cases n) auto
  show ?case
  proof (cases "map_of es c")
    case None
    with n show ?thesis by simp
  next
    case (Some m)
    with 2 n show ?thesis by (cases m) auto
  qed
next
  case (3 c v va n)
  then obtain es where n: "n = Dir es" by (cases n) auto
  show ?case
  proof (cases "map_of es c")
    case None
    with n show ?thesis by simp
  next
    case (Some m)
    with 3(2) n obtain m' where "create_file (v # va) m = Inr m'"
      by (auto split: sum.splits)
    with 3(1) [OF n Some] have "stat (v # va) m \<noteq> Some DirE" by simp
    with n Some show ?thesis by simp
  qed
qed

lemma create_file_keeps_dir:
  "create_file q n = Inr n' \<Longrightarrow> stat p n = Some DirE \<Longrightarrow> stat p n' = Some DirE"
  using create_file_not_dir [of q n n'] by (auto simp: stat_create_file)

lemma write_file_keeps_dir: "stat p n = Some DirE \<Longrightarrow> stat p (write_file q b n) = Some DirE"
  by (auto simp: stat_write_file)

section \<open>Paths in a well-formed tree\<close>

lemma clean_acc_plain: "list_all plain cs \<Longrightarrow> clean_acc acc cs = rev acc @ cs"
  by (induction cs arbitrary: acc) (auto simp: plain_def)

lemma clean_plain: "list_all plain p \<Longrightarrow> clean p = p"
  by (simp add: clean_def clean_acc_plain)

lemma clean_acc_append:
  "clean_acc acc (xs @ ys) = clean_acc (rev (clean_acc acc xs)) ys"
  by (induction xs arbitrary: acc) (auto split: list.splits)

lemma Join_plain: "list_all plain q \<Longrightarrow> filepath_Join d q = filepath_Join d [] @ q"
  by (simp add: filepath_Join_def clean_def clean_acc_append [of "[]" d q] clean_acc_plain)

lemma Join_plain_plain:
  "list_all plain p \<Longrightarrow> list_all plain q \<Longrightarrow> filepath_Join p q = p @ q"
  by (simp add: filepath_Join_def clean_plain)

lemma strip_common_append: "strip_common a (a @ r) = ([], r)"
  by (induction a) auto

lemma Rel_plain:
  "list_all plain s \<Longrightarrow> list_all plain q \<Longrightarrow> filepath_Rel s (s @ q) = Inr q"
  by (simp add: filepath_Rel_def clean_plain strip_common_append)

lemma lookup_append:
  "lookup (a @ b) n = (case lookup a n of None \<Rightarrow> None | Some m \<Rightarrow> lookup b m)"
  by (induction a arbitrary: n) (auto split: node.splits option.splits)

lemma wf_lookup:
  "wf_node n \<Longrightarrow> lookup p n = Some t \<Longrightarrow> list_all plain p \<and> wf_node t"
proof (induction p arbitrary: n)
  case Nil
  then show ?case by simp
next
  case (Cons c cs)
  then show ?case
    by (auto simp: list_all_iff split: node.splits option.splits dest!: map_of_SomeD)
qed

lemma wf_stat_plain: "wf_node n \<Longrightarrow> stat p n = Some e \<Longrightarrow> list_all plain p"
  by (auto simp: stat_def dest: wf_lookup)

section \<open>Composing runs\<close>

lemma sound_run_comp:
  assumes a: "sound_run src dst mk cp in1 w w1"
    and b: "sound_run src dst mk cp in2 w1 w2"
    and dis: "\<And>p. in1 p \<Longrightarrow> \<not> in2 p"
  shows "sound_run src dst mk cp (\<lambda>p. in1 p \<or> in2 p) w w2"
proof -
  from a obtain evs1 where
    k1: "kept dst in1 w w1" and s1: "src w1 = src w" "fault w1 = fault w" "partial w1 = partial w"
    and t1: "trace w1 = trace w @ evs1"
    and m1: "\<And>dd. (mk dd, None) \<in> set evs1 \<Longrightarrow> stat dd (dst w1) = Some DirE"
    and c1: "\<And>ss dd. (cp ss dd, None) \<in> set evs1 \<Longrightarrow>
           in1 dd \<and> (\<exists>b. lookup ss (src w) = Some (File b) \<and> stat dd (dst w1) = Some (FileE b))"
    unfolding sound_run_def written_def by blast
  from b obtain evs2 where
    k2: "kept dst in2 w1 w2" and s2: "src w2 = src w1" "fault w2 = fault w1" "partial w2 = partial w1"
    and t2: "trace w2 = trace w1 @ evs2"
    and m2: "\<And>dd. (mk dd, None) \<in> set evs2 \<Longrightarrow> stat dd (dst w2) = Some DirE"
    and c2: "\<And>ss dd. (cp ss dd, None) \<in> set evs2 \<Longrightarrow>
           in2 dd \<and> (\<exists>b. lookup ss (src w1) = Some (File b) \<and> stat dd (dst w2) = Some (FileE b))"
    unfolding sound_run_def written_def by blast
  have k: "kept dst (\<lambda>p. in1 p \<or> in2 p) w w2"
    using k1 k2 unfolding kept_def by blast
  have t: "trace w2 = trace w @ (evs1 @ evs2)"
    using t1 t2 by simp
  have m: "stat dd (dst w2) = Some DirE" if "(mk dd, None) \<in> set (evs1 @ evs2)" for dd
    using that m1 m2 k2 unfolding kept_def by auto
  have c: "(in1 dd \<or> in2 dd) \<and>
       (\<exists>b. lookup ss (src w) = Some (File b) \<and> stat dd (dst w2) = Some (FileE b))"
    if h: "(cp ss dd, None) \<in> set (evs1 @ evs2)" for ss dd
  proof (cases "(cp ss dd, None) \<in> set evs2")
    case True
    from c2 [OF True] s1 show ?thesis by auto
  next
    case False
    with h have "(cp ss dd, None) \<in> set evs1" by simp
    from c1 [OF this] obtain bb where
      x: "in1 dd" "lookup ss (src w) = Some (File bb)" "stat dd (dst w1) = Some (FileE bb)"
      by blast
    from x(1) dis have "\<not> in2 dd" by blast
    with x(3) k2 have "stat dd (dst w2) = Some (FileE bb)"
      unfolding kept_def by blast
    with x show ?thesis by blast
  qed
  show ?thesis
    unfolding sound_run_def written_def
    using k t m c s1 s2 by (intro conjI exI [of _ "evs1 @ evs2"]) auto
qed

lemma sound_run_mono:
  assumes "sound_run src dst mk cp in1 w w'" and "\<And>p. in1 p \<Longrightarrow> in2 p"
  shows "sound_run src dst mk cp in2 w w'"
  using assms unfolding sound_run_def written_def kept_def by blast

lemma sound_run_refl: "sound_run src dst mk cp inside w w"
  unfolding sound_run_def written_def kept_def by auto

lemma sound_run_log:
  assumes "src (log opn r w) = src w" and "dst (log opn r w) = dst w"
    and "r = None \<Longrightarrow> (\<forall>dd. opn \<noteq> mk dd) \<and> (\<forall>ss dd. opn \<noteq> cp ss dd)"
  shows "sound_run src dst mk cp (\<lambda>p. False) w (log opn r w)"
  unfolding sound_run_def written_def kept_def
  using assms by (auto intro!: exI [of _ "[(opn, r)]"])

section \<open>The walk of an upload keeps and writes\<close>

lemma attempt_noop:
  "attempt opn (\<lambda>w. Inr (x, w)) w =
     (case fault w opn of
        Some e \<Rightarrow> (Inl e, log opn (Some e) w)
      | None \<Rightarrow> (Inr x, log opn None w))"
  by (simp add: attempt_def split: option.splits)

lemma upload_visit_err: "upload_visit s d p i (Some e) w = (Some e, w)"
  by (simp add: upload_visit_def)

lemma upload_visit_dir:
  assumes "list_all plain s" and "list_all plain q"
  shows "upload_visit s d (s @ q) (FileInfo True) None w =
           (None, snd (sftp_MkdirAll (filepath_Join d [] @ q) w))"
  using assms Join_plain [of q d] by (simp add: upload_visit_def Rel_plain)

lemma upload_visit_file:
  assumes "list_all plain s" and "list_all plain q"
    and "lookup (s @ q) (localfs w) = Some (File b)"
    and "upload_visit s d (s @ q) (FileInfo False) None w = (r, w')"
    and "t = filepath_Join d [] @ q"
  shows "localfs w' = localfs w \<and> fault w' = fault w \<and> partial w' = partial w \<and>
     ((\<exists>e. r = Some e \<and> trace w' = trace w @ [(OsOpen (s @ q), Some e)]
          \<and> remotefs w' = remotefs w)
    \<or> (\<exists>e c. r = Some e
          \<and> trace w' = trace w @ [(OsOpen (s @ q), None), (SftpCreate t, Some e),
                                   (OsClose (s @ q), c)]
          \<and> remotefs w' = remotefs w)
    \<or> (\<exists>fs c1 c2. create_file t (remotefs w) = Inr fs
          \<and> trace w' = trace w @ [(OsOpen (s @ q), None), (SftpCreate t, None),
                                   (CopyUp (s @ q) t, r), (SftpFileClose t, c1),
                                   (OsClose (s @ q), c2)]
          \<and> remotefs w' =
              write_file t (case r of None \<Rightarrow> b | Some e \<Rightarrow> take (partial w) b) fs))"
proof -
  have j: "filepath_Join d q = t"
    using assms(2,5) Join_plain [of q d] by simp
  show ?thesis
    using assms(1-4)
    by (auto simp: upload_visit_def Rel_plain j case_prod_beta os_Open_fst sftp_Create_fst
        sftp_Create_remotefs io_Copy_up_fst io_Copy_up_remotefs
        split: option.splits sum.splits)
qed

lemma up_sound_MkdirAll: "up_sound (\<lambda>p. False) w (snd (sftp_MkdirAll t w))"
proof (cases "fst (sftp_MkdirAll t w)")
  case (Inl e)
  then show ?thesis
    unfolding sound_run_def written_def kept_def
    by (auto simp: sftp_MkdirAll_remotefs)
next
  case (Inr u)
  then obtain fs where fs: "mkdir_all t (remotefs w) = Inr fs" "remotefs (snd (sftp_MkdirAll t w)) = fs"
    by (auto simp: sftp_MkdirAll_remotefs sftp_MkdirAll_fst split: option.splits sum.splits)
  show ?thesis
    unfolding sound_run_def written_def kept_def
    using fs Inr mkdir_all_keeps [OF fs(1)] stat_mkdir_all [OF fs(1), of t]
    by auto
qed

lemma up_sound_file:
  assumes "list_all plain s" and "list_all plain q"
    and "lookup (s @ q) (localfs w) = Some (File b)"
    and "upload_visit s d (s @ q) (FileInfo False) None w = (r, w')"
  shows "up_sound (\<lambda>p. p = filepath_Join d [] @ q) w w'"
proof -
  let ?t = "filepath_Join d [] @ q"
  from upload_visit_file [OF assms refl]
  have env: "localfs w' = localfs w" "fault w' = fault w" "partial w' = partial w"
    and cases: "(\<exists>e. r = Some e \<and> trace w' = trace w @ [(OsOpen (s @ q), Some e)]
          \<and> remotefs w' = remotefs w)
    \<or> (\<exists>e c. r = Some e
          \<and> trace w' = trace w @ [(OsOpen (s @ q), None), (SftpCreate ?t, Some e),
                                   (OsClose (s @ q), c)]
          \<and> remotefs w' = remotefs w)
    \<or> (\<exists>fs c1 c2. create_file ?t (remotefs w) = Inr fs
          \<and> trace w' = trace w @ [(OsOpen (s @ q), None), (SftpCreate ?t, None),
                                   (CopyUp (s @ q) ?t, r), (SftpFileClose ?t, c1),
                                   (OsClose (s @ q), c2)]
          \<and> remotefs w' =
              write_file ?t (case r of None \<Rightarrow> b | Some e \<Rightarrow> take (partial w) b) fs)"
    by blast+
  from cases show ?thesis
  proof (elim disjE exE conjE)
    fix e
    assume "trace w' = trace w @ [(OsOpen (s @ q), Some e)]" "remotefs w' = remotefs w"
    then show ?thesis
      unfolding sound_run_def written_def kept_def using env by auto
  next
    fix e c
    assume "trace w' = trace w @ [(OsOpen (s @ q), None), (SftpCreate ?t, Some e),
                                   (OsClose (s @ q), c)]" "remotefs w' = remotefs w"
    then show ?thesis
      unfolding sound_run_def written_def kept_def using env by auto
  next
    fix fs c1 c2
    assume cf: "create_file ?t (remotefs w) = Inr fs"
      and tr: "trace w' = trace w @ [(OsOpen (s @ q), None), (SftpCreate ?t, None),
                                   (CopyUp (s @ q) ?t, r), (SftpFileClose ?t, c1),
                                   (OsClose (s @ q), c2)]"
      and rf: "remotefs w' =
              write_file ?t (case r of None \<Rightarrow> b | Some e \<Rightarrow> take (partial w) b) fs"
    have k: "kept remotefs (\<lambda>p. p = ?t) w w'"
      unfolding kept_def
      using create_file_not_dir [OF cf] stat_create_file [OF cf]
      by (auto simp: rf stat_write_file)
    have wr: "written localfs remotefs SftpMkdirAll CopyUp (\<lambda>p. p = ?t) w w'"
      unfolding written_def
      using env tr assms(3) stat_create_file [OF cf, of ?t]
      by (auto simp: rf stat_write_file)
    from k wr show ?thesis unfolding sound_run_def by simp
  qed
qed


lemma up_sound_attempt:
  "up_sound (\<lambda>p. False) w (snd (attempt (OsLstat p) (\<lambda>w. Inr (x, w)) w))"
  "up_sound (\<lambda>p. False) w (snd (attempt (OsReadDir p) (\<lambda>w. Inr (x, w)) w))"
  by (auto simp: attempt_noop intro!: sound_run_log split: option.splits)

lemma prefix_sibling:
  "prefix (b @ [x]) p \<Longrightarrow> prefix (b @ [y]) p \<Longrightarrow> x = y"
  by (auto simp: prefix_def)

lemma prefix_child: "prefix (b @ q @ [x]) p \<Longrightarrow> prefix (b @ q) p"
  by (metis append_assoc append_prefixD)

lemma up_names_sound:
  assumes IH: "\<And>name n q' w r w'. (name, n) \<in> set es \<Longrightarrow> list_all plain q' \<Longrightarrow>
      wf_node n \<Longrightarrow> lookup (s @ q') (localfs w) = Some n \<Longrightarrow>
      filepath_walk (upload_visit s d) (s @ q') n w = (r, w') \<Longrightarrow>
      up_sound (prefix (filepath_Join d [] @ q')) w w'"
    and s: "list_all plain s" and q: "list_all plain q"
    and dist: "distinct (map fst es)"
    and wf: "list_all (\<lambda>e. plain (fst e) \<and> wf_node (snd e)) es"
    and look: "\<forall>(name, n) \<in> set es. lookup (s @ q @ [name]) (localfs w) = Some n"
    and run: "filepath_walk_names (upload_visit s d) (s @ q) es w = (r, w')"
  shows "up_sound (\<lambda>p. \<exists>name \<in> fst ` set es. prefix (filepath_Join d [] @ q @ [name]) p) w w'"
  using IH dist wf look run
proof (induction es arbitrary: w)
  case Nil
  then show ?case by (simp add: sound_run_refl)
next
  case (Cons e es)
  obtain name n where e: "e = (name, n)" by (cases e)
  let ?R = "filepath_Join d []"
  let ?w1 = "snd (attempt (OsLstat (s @ q @ [name])) (\<lambda>w. Inr ((), w)) w)"
  have pl: "plain name" "wf_node n" "list_all plain (q @ [name])"
    using Cons.prems(3) q e by auto
  have j: "filepath_Join (s @ q) [name] = s @ q @ [name]"
    using s q pl by (simp add: Join_plain_plain)
  have a: "up_sound (\<lambda>p. False) w ?w1"
    by (rule up_sound_attempt)
  have l1: "localfs ?w1 = localfs w"
    using a unfolding sound_run_def written_def by simp
  show ?case
  proof (cases "fst (attempt (OsLstat (s @ q @ [name])) (\<lambda>w. Inr ((), w)) w)")
    case (Inl err)
    then have "w' = ?w1"
      using Cons.prems(5) e j
      by (simp add: upload_visit_err case_prod_beta split: sum.splits)
    with a have "up_sound (\<lambda>p. False) w w'" by simp
    then show ?thesis by (rule sound_run_mono) simp
  next
    case (Inr u)
    obtain r1 w2 where c: "filepath_walk (upload_visit s d) (s @ q @ [name]) n ?w1 = (r1, w2)"
      by (cases "filepath_walk (upload_visit s d) (s @ q @ [name]) n ?w1")
    have ln: "lookup (s @ q @ [name]) (localfs ?w1) = Some n"
      using Cons.prems(4) e l1 by simp
    have "up_sound (prefix (?R @ (q @ [name]))) ?w1 w2"
      using Cons.prems(1) [of name n "q @ [name]" ?w1 r1 w2] e pl ln c by simp
    then have child: "up_sound (prefix (?R @ q @ [name])) ?w1 w2" by simp
    have ac: "up_sound (prefix (?R @ q @ [name])) w w2"
      using sound_run_comp [OF a child] by simp
    show ?thesis
    proof (cases r1)
      case (Some e1)
      then have "w' = w2"
        using Cons.prems(5) e j Inr c by (simp add: case_prod_beta split: sum.splits)
      with ac have "up_sound (prefix (?R @ q @ [name])) w w'" by simp
      then show ?thesis
        by (rule sound_run_mono) (auto simp: e)
    next
      case None
      then have rest: "filepath_walk_names (upload_visit s d) (s @ q) es w2 = (r, w')"
        using Cons.prems(5) e j Inr c by (simp add: case_prod_beta split: sum.splits)
      have l2: "localfs w2 = localfs w"
        using ac unfolding sound_run_def written_def by simp
      have ih: "up_sound (\<lambda>p. \<exists>name \<in> fst ` set es. prefix (?R @ q @ [name]) p) w2 w'"
      proof (rule Cons.IH [of w2])
        fix name n q' w r w'
        assume "(name, n) \<in> set es" "list_all plain q'" "wf_node n"
          "lookup (s @ q') (localfs w) = Some n"
          "filepath_walk (upload_visit s d) (s @ q') n w = (r, w')"
        then show "up_sound (prefix (?R @ q')) w w'"
          using Cons.prems(1) [of name n q' w r w'] by simp
      next
        show "distinct (map fst es)" using Cons.prems(2) by simp
      next
        show "list_all (\<lambda>e. plain (fst e) \<and> wf_node (snd e)) es" using Cons.prems(3) by simp
      next
        show "\<forall>(name, n) \<in> set es. lookup (s @ q @ [name]) (localfs w2) = Some n"
          using Cons.prems(4) l2 by simp
      next
        show "filepath_walk_names (upload_visit s d) (s @ q) es w2 = (r, w')" by (rule rest)
      qed
      have dis: "\<not> (\<exists>name' \<in> fst ` set es. prefix (?R @ q @ [name']) p)"
        if "prefix (?R @ q @ [name]) p" for p
      proof
        assume "\<exists>name' \<in> fst ` set es. prefix (?R @ q @ [name']) p"
        then obtain name' where n': "name' \<in> fst ` set es" "prefix (?R @ q @ [name']) p"
          by blast
        from that n'(2) have "name = name'"
          using prefix_sibling [of "?R @ q" name p name'] by simp
        with n'(1) Cons.prems(2) e show False by auto
      qed
      from sound_run_comp [OF ac ih dis]
      show ?thesis
        by (rule sound_run_mono) (auto simp: e)
    qed
  qed
qed

lemma up_walk_sound:
  assumes s: "list_all plain s"
  shows "list_all plain q \<Longrightarrow> wf_node t \<Longrightarrow> lookup (s @ q) (localfs w) = Some t \<Longrightarrow>
     filepath_walk (upload_visit s d) (s @ q) t w = (r, w') \<Longrightarrow>
     up_sound (prefix (filepath_Join d [] @ q)) w w'"
proof (induction t arbitrary: q w r w')
  case (File b)
  from up_sound_file [OF s File.prems(1) File.prems(3)] File.prems(4)
  have "up_sound (\<lambda>p. p = filepath_Join d [] @ q) w w'" by simp
  then show ?case by (rule sound_run_mono) simp
next
  case (Dir es)
  let ?R = "filepath_Join d []"
  let ?w1 = "snd (attempt (OsReadDir (s @ q)) (\<lambda>w. Inr ((), w)) w)"
  have a: "up_sound (\<lambda>p. False) w ?w1"
    by (rule up_sound_attempt)
  show ?case
  proof (cases "fst (attempt (OsReadDir (s @ q)) (\<lambda>w. Inr ((), w)) w)")
    case (Inl err)
    then have "w' = ?w1"
      using Dir.prems(4) by (simp add: upload_visit_err case_prod_beta)
    with a have "up_sound (\<lambda>p. False) w w'" by simp
    then show ?thesis by (rule sound_run_mono) simp
  next
    case (Inr u)
    let ?w2 = "snd (sftp_MkdirAll (?R @ q) ?w1)"
    have b: "up_sound (\<lambda>p. False) ?w1 ?w2"
      by (rule up_sound_MkdirAll)
    have ab: "up_sound (\<lambda>p. False) w ?w2"
      using sound_run_comp [OF a b] by simp
    have l2: "localfs ?w2 = localfs w"
      using ab unfolding sound_run_def written_def by simp
    have rest: "filepath_walk_names (upload_visit s d) (s @ q) es ?w2 = (r, w')"
      using Dir.prems(4) Inr upload_visit_dir [OF s Dir.prems(1), of d ?w1]
      by (simp add: case_prod_beta)
    have look: "\<forall>(name, n) \<in> set es. lookup (s @ q @ [name]) (localfs ?w2) = Some n"
      using Dir.prems(2,3) l2
      by (auto simp: lookup_append [of "s @ q" "[name]" for name, simplified])
    have ih: "up_sound (\<lambda>p. \<exists>name \<in> fst ` set es. prefix (?R @ q @ [name]) p) ?w2 w'"
    proof (rule up_names_sound [OF _ s Dir.prems(1) _ _ look rest])
      fix name n q' w r w'
      assume "(name, n) \<in> set es" "list_all plain q'" "wf_node n"
        "lookup (s @ q') (localfs w) = Some n"
        "filepath_walk (upload_visit s d) (s @ q') n w = (r, w')"
      then show "up_sound (prefix (?R @ q')) w w'"
        using Dir.IH [of "(name, n)" n q' w r w'] by simp
    next
      show "distinct (map fst es)" using Dir.prems(2) by simp
    next
      show "list_all (\<lambda>e. plain (fst e) \<and> wf_node (snd e)) es" using Dir.prems(2) by simp
    qed
    from sound_run_comp [OF ab ih]
    have "up_sound (\<lambda>p. False \<or> (\<exists>name \<in> fst ` set es. prefix (?R @ q @ [name]) p)) w w'"
      by simp
    then show ?thesis
      by (rule sound_run_mono) (auto dest: prefix_child)
  qed
qed

section \<open>The walk of an upload mirrors the tree\<close>

lemma sound_run_trace:
  "sound_run src dst mk cp inside w w' \<Longrightarrow> \<exists>evs. trace w' = trace w @ evs"
  unfolding sound_run_def written_def by blast

lemma sound_run_src: "sound_run src dst mk cp inside w w' \<Longrightarrow> src w' = src w"
  unfolding sound_run_def written_def by blast

lemma sound_run_kept:
  "sound_run src dst mk cp inside w w' \<Longrightarrow> stat p (dst w) = Some e \<Longrightarrow> \<not> inside p \<Longrightarrow>
   stat p (dst w') = Some e"
  unfolding sound_run_def kept_def by blast

lemma sound_run_kept_dir:
  "sound_run src dst mk cp inside w w' \<Longrightarrow> stat p (dst w) = Some DirE \<Longrightarrow>
   stat p (dst w') = Some DirE"
  unfolding sound_run_def kept_def by blast

lemma new_events_split:
  assumes "trace w1 = trace w @ e1" and "trace w2 = trace w1 @ e2"
  shows "new_events w w2 = new_events w w1 @ new_events w1 w2"
  using assms by (simp add: new_events_def)

lemma up_names_sound':
  assumes s: "list_all plain s" and q: "list_all plain q"
    and dist: "distinct (map fst es)"
    and wf: "list_all (\<lambda>e. plain (fst e) \<and> wf_node (snd e)) es"
    and look: "\<forall>(name, n) \<in> set es. lookup (s @ q @ [name]) (localfs w) = Some n"
    and run: "filepath_walk_names (upload_visit s d) (s @ q) es w = (r, w')"
  shows "up_sound (\<lambda>p. \<exists>name \<in> fst ` set es. prefix (filepath_Join d [] @ q @ [name]) p) w w'"
  by (rule up_names_sound [OF _ s q dist wf look run]) (rule up_walk_sound [OF s])

lemma up_names_mirror:
  assumes IH: "\<And>name n q' w w'. (name, n) \<in> set es \<Longrightarrow> list_all plain q' \<Longrightarrow>
      wf_node n \<Longrightarrow> lookup (s @ q') (localfs w) = Some n \<Longrightarrow>
      filepath_walk (upload_visit s d) (s @ q') n w = (None, w') \<Longrightarrow>
      \<not> list_ex failed_mkdir (new_events w w') \<Longrightarrow>
      (\<forall>p e. stat p n = Some e \<longrightarrow> stat (filepath_Join d [] @ q' @ p) (remotefs w') = Some e)"
    and s: "list_all plain s" and q: "list_all plain q"
    and dist: "distinct (map fst es)"
    and wf: "list_all (\<lambda>e. plain (fst e) \<and> wf_node (snd e)) es"
    and look: "\<forall>(name, n) \<in> set es. lookup (s @ q @ [name]) (localfs w) = Some n"
    and run: "filepath_walk_names (upload_visit s d) (s @ q) es w = (None, w')"
    and ok: "\<not> list_ex failed_mkdir (new_events w w')"
  shows "\<forall>(name, n) \<in> set es. \<forall>p e. stat p n = Some e \<longrightarrow>
           stat (filepath_Join d [] @ q @ name # p) (remotefs w') = Some e"
  using IH dist wf look run ok
proof (induction es arbitrary: w)
  case Nil
  then show ?case by simp
next
  case (Cons e es)
  obtain name n where e: "e = (name, n)" by (cases e)
  let ?R = "filepath_Join d []"
  let ?w1 = "snd (attempt (OsLstat (s @ q @ [name])) (\<lambda>w. Inr ((), w)) w)"
  have pl: "plain name" "wf_node n" "list_all plain (q @ [name])"
    using Cons.prems(3) q e by auto
  have j: "filepath_Join (s @ q) [name] = s @ q @ [name]"
    using s q pl by (simp add: Join_plain_plain)
  have a: "up_sound (\<lambda>p. False) w ?w1"
    by (rule up_sound_attempt)
  have l1: "localfs ?w1 = localfs w"
    using sound_run_src [OF a] .
  obtain u where Inr: "fst (attempt (OsLstat (s @ q @ [name])) (\<lambda>w. Inr ((), w)) w) = Inr u"
    using Cons.prems(5) e j
    by (cases "fst (attempt (OsLstat (s @ q @ [name])) (\<lambda>w. Inr ((), w)) w)")
       (auto simp: upload_visit_err case_prod_beta)
  obtain r1 w2 where c: "filepath_walk (upload_visit s d) (s @ q @ [name]) n ?w1 = (r1, w2)"
    by (cases "filepath_walk (upload_visit s d) (s @ q @ [name]) n ?w1")
  have r1: "r1 = None"
    using Cons.prems(5) e j Inr c by (cases r1) (auto simp: case_prod_beta)
  have rest: "filepath_walk_names (upload_visit s d) (s @ q) es w2 = (None, w')"
    using Cons.prems(5) e j Inr c r1 by (simp add: case_prod_beta)
  have ln: "lookup (s @ q @ [name]) (localfs ?w1) = Some n"
    using Cons.prems(4) e l1 by simp
  have child: "up_sound (prefix (?R @ q @ [name])) ?w1 w2"
    using up_walk_sound [OF s pl(3) pl(2), of ?w1 d r1 w2] ln c by simp
  have l2: "localfs w2 = localfs w"
    using sound_run_src [OF child] l1 by simp
  have look2: "\<forall>(name, n) \<in> set es. lookup (s @ q @ [name]) (localfs w2) = Some n"
    using Cons.prems(4) l2 by simp
  have rs: "up_sound (\<lambda>p. \<exists>name \<in> fst ` set es. prefix (?R @ q @ [name]) p) w2 w'"
    using up_names_sound' [OF s q _ _ look2 rest] Cons.prems(2,3) by simp
  from sound_run_trace [OF a] obtain e1 where t1: "trace ?w1 = trace w @ e1" by blast
  from sound_run_trace [OF child] obtain e2 where t2: "trace w2 = trace ?w1 @ e2" by blast
  from sound_run_trace [OF rs] obtain e3 where t3: "trace w' = trace w2 @ e3" by blast
  have ne: "new_events w w' = e1 @ e2 @ e3" "new_events ?w1 w2 = e2" "new_events w2 w' = e3"
    using t1 t2 t3 by (simp_all add: new_events_def)
  have ok2: "\<not> list_ex failed_mkdir (new_events ?w1 w2)"
    and ok3: "\<not> list_ex failed_mkdir (new_events w2 w')"
    using Cons.prems(6) ne by (auto simp: list_ex_iff)
  have cm: "\<forall>p e. stat p n = Some e \<longrightarrow> stat (?R @ q @ name # p) (remotefs w2) = Some e"
    using Cons.prems(1) [of name n "q @ [name]" ?w1 w2] e pl ln c r1 ok2 by simp
  have ih: "\<forall>(name, n) \<in> set es. \<forall>p e. stat p n = Some e \<longrightarrow>
           stat (?R @ q @ name # p) (remotefs w') = Some e"
  proof (rule Cons.IH [of w2])
    fix name n q' w w'
    assume "(name, n) \<in> set es" "list_all plain q'" "wf_node n"
      "lookup (s @ q') (localfs w) = Some n"
      "filepath_walk (upload_visit s d) (s @ q') n w = (None, w')"
      "\<not> list_ex failed_mkdir (new_events w w')"
    then show "\<forall>p e. stat p n = Some e \<longrightarrow> stat (?R @ q' @ p) (remotefs w') = Some e"
      using Cons.prems(1) [of name n q' w w'] by simp
  next
    show "distinct (map fst es)" using Cons.prems(2) by simp
  next
    show "list_all (\<lambda>e. plain (fst e) \<and> wf_node (snd e)) es" using Cons.prems(3) by simp
  next
    show "\<forall>(name, n) \<in> set es. lookup (s @ q @ [name]) (localfs w2) = Some n" by (rule look2)
  next
    show "filepath_walk_names (upload_visit s d) (s @ q) es w2 = (None, w')" by (rule rest)
  next
    show "\<not> list_ex failed_mkdir (new_events w2 w')" by (rule ok3)
  qed
  have first: "stat (?R @ q @ name # p) (remotefs w') = Some x" if "stat p n = Some x" for p x
  proof -
    from cm that have at2: "stat (?R @ q @ name # p) (remotefs w2) = Some x" by blast
    have "\<not> (\<exists>name' \<in> fst ` set es. prefix (?R @ q @ [name']) (?R @ q @ name # p))"
      using Cons.prems(2) e by auto
    from sound_run_kept [OF rs at2 this] show ?thesis .
  qed
  from first ih show ?case by (auto simp: e)
qed


lemma up_walk_mirror:
  assumes s: "list_all plain s"
  shows "list_all plain q \<Longrightarrow> wf_node t \<Longrightarrow> lookup (s @ q) (localfs w) = Some t \<Longrightarrow>
     filepath_walk (upload_visit s d) (s @ q) t w = (None, w') \<Longrightarrow>
     \<not> list_ex failed_mkdir (new_events w w') \<Longrightarrow>
     (\<forall>p e. stat p t = Some e \<longrightarrow> stat (filepath_Join d [] @ q @ p) (remotefs w') = Some e)"
proof (induction t arbitrary: q w w')
  case (File b)
  let ?t = "filepath_Join d [] @ q"
  from File.prems(4) have v: "upload_visit s d (s @ q) (FileInfo False) None w = (None, w')"
    by simp
  from upload_visit_file [OF s File.prems(1) File.prems(3) v refl]
  obtain fs where cf: "create_file ?t (remotefs w) = Inr fs"
    and rf: "remotefs w' = write_file ?t b fs"
    by auto
  have "stat ?t (remotefs w') = Some (FileE b)"
    using stat_create_file [OF cf, of ?t] by (simp add: rf stat_write_file)
  then show ?case by (auto simp: stat_File)
next
  case (Dir es)
  let ?R = "filepath_Join d []"
  let ?w1 = "snd (attempt (OsReadDir (s @ q)) (\<lambda>w. Inr ((), w)) w)"
  let ?w2 = "snd (sftp_MkdirAll (?R @ q) ?w1)"
  have a: "up_sound (\<lambda>p. False) w ?w1"
    by (rule up_sound_attempt)
  obtain u where Inr: "fst (attempt (OsReadDir (s @ q)) (\<lambda>w. Inr ((), w)) w) = Inr u"
    using Dir.prems(4)
    by (cases "fst (attempt (OsReadDir (s @ q)) (\<lambda>w. Inr ((), w)) w)")
       (auto simp: upload_visit_err case_prod_beta)
  have b: "up_sound (\<lambda>p. False) ?w1 ?w2"
    by (rule up_sound_MkdirAll)
  have l2: "localfs ?w2 = localfs w"
    using sound_run_src [OF a] sound_run_src [OF b] by simp
  have rest: "filepath_walk_names (upload_visit s d) (s @ q) es ?w2 = (None, w')"
    using Dir.prems(4) Inr upload_visit_dir [OF s Dir.prems(1), of d ?w1]
    by (simp add: case_prod_beta)
  have look: "\<forall>(name, n) \<in> set es. lookup (s @ q @ [name]) (localfs ?w2) = Some n"
    using Dir.prems(2,3) l2
    by (auto simp: lookup_append [of "s @ q" "[name]" for name, simplified])
  have dw: "distinct (map fst es)" "list_all (\<lambda>e. plain (fst e) \<and> wf_node (snd e)) es"
    using Dir.prems(2) by simp_all
  have rs: "up_sound (\<lambda>p. \<exists>name \<in> fst ` set es. prefix (?R @ q @ [name]) p) ?w2 w'"
    by (rule up_names_sound' [OF s Dir.prems(1) dw look rest])
  from sound_run_trace [OF a] obtain e1 where t1: "trace ?w1 = trace w @ e1" by blast
  from sound_run_trace [OF rs] obtain e3 where t3: "trace w' = trace ?w2 @ e3" by blast
  have t2: "trace ?w2 = trace ?w1 @ [(SftpMkdirAll (?R @ q), err_of (fst (sftp_MkdirAll (?R @ q) ?w1)))]"
    by simp
  have ne: "new_events w w' =
      e1 @ [(SftpMkdirAll (?R @ q), err_of (fst (sftp_MkdirAll (?R @ q) ?w1)))] @ e3"
    "new_events ?w2 w' = e3"
    using t1 t2 t3 by (simp_all add: new_events_def)
  have ok3: "\<not> list_ex failed_mkdir (new_events ?w2 w')"
    using Dir.prems(5) ne by (auto simp: list_ex_iff)
  have mk: "err_of (fst (sftp_MkdirAll (?R @ q) ?w1)) = None"
  proof (cases "err_of (fst (sftp_MkdirAll (?R @ q) ?w1))")
    case None
    then show ?thesis .
  next
    case (Some x)
    with Dir.prems(5) ne(1) show ?thesis by (auto simp: list_ex_iff)
  qed
  then obtain fs where fs: "mkdir_all (?R @ q) (remotefs ?w1) = Inr fs" "remotefs ?w2 = fs"
    by (auto simp: sftp_MkdirAll_remotefs sftp_MkdirAll_fst split: option.splits sum.splits)
  have d2: "stat (?R @ q) (remotefs ?w2) = Some DirE"
    using stat_mkdir_all [OF fs(1), of "?R @ q"] fs(2) by simp
  have top: "stat (?R @ q) (remotefs w') = Some DirE"
    by (rule sound_run_kept_dir [OF rs d2])
  have sub: "\<forall>(name, n) \<in> set es. \<forall>p e. stat p n = Some e \<longrightarrow>
           stat (?R @ q @ name # p) (remotefs w') = Some e"
  proof (rule up_names_mirror [OF _ s Dir.prems(1) dw look rest ok3])
    fix name n q' w w'
    assume "(name, n) \<in> set es" "list_all plain q'" "wf_node n"
      "lookup (s @ q') (localfs w) = Some n"
      "filepath_walk (upload_visit s d) (s @ q') n w = (None, w')"
      "\<not> list_ex failed_mkdir (new_events w w')"
    then show "\<forall>p e. stat p n = Some e \<longrightarrow> stat (?R @ q' @ p) (remotefs w') = Some e"
      using Dir.IH [of "(name, n)" n q' w w'] by simp
  qed
  show ?case
  proof (intro allI impI)
    fix p e
    assume st: "stat p (Dir es) = Some e"
    show "stat (?R @ q @ p) (remotefs w') = Some e"
    proof (cases p)
      case Nil
      with st top show ?thesis by simp
    next
      case (Cons name p')
      with st obtain n where n: "map_of es name = Some n" "stat p' n = Some e"
        by (auto split: option.splits)
      from n(1) have "(name, n) \<in> set es" by (rule map_of_SomeD)
      with sub n(2) Cons show ?thesis by auto
    qed
  qed
qed

section \<open>The walk of an upload fails fast\<close>

lemma fail_fast_quiet_append:
  "fail_fast D None e1 \<Longrightarrow> fail_fast D r (e1 @ e2) = fail_fast D r e2"
  by (induction D "None :: error option" e1 rule: fail_fast.induct) auto

lemma fail_fast_closes:
  "\<forall>opn. is_close opn \<longrightarrow> D opn \<Longrightarrow> list_all (\<lambda>ev. is_close (fst ev)) cs \<Longrightarrow>
   fail_fast D None cs"
proof (induction cs)
  case Nil
  then show ?case by simp
next
  case (Cons c cs)
  then show ?case by (cases c; cases "snd c") auto
qed

lemma fail_fast_append_closes:
  "\<forall>opn. is_close opn \<longrightarrow> D opn \<Longrightarrow> fail_fast D r evs \<Longrightarrow>
   list_all (\<lambda>ev. is_close (fst ev)) cs \<Longrightarrow> fail_fast D r (evs @ cs)"
proof (induction evs)
  case Nil
  then show ?case using fail_fast_closes [of D cs] by simp
next
  case (Cons ev evs)
  obtain opn x where ev: "ev = (opn, x)" by (cases ev)
  show ?case
  proof (cases x)
    case None
    with Cons ev show ?thesis by simp
  next
    case (Some e)
    with Cons ev show ?thesis by (auto split: if_splits)
  qed
qed

lemma fail_fast_wrap:
  "fail_fast D (Some e) evs \<Longrightarrow> fail_fast D (Some (WrapError m e)) evs"
  by (induction D "Some e" evs rule: fail_fast.induct) (auto split: if_splits)

lemma fail_fast_copy_up:
  "fail_fast dropped_up r [(CopyUp a b, r), (SftpFileClose t, c1), (OsClose u, c2)]"
  by (cases r; cases c1; cases c2) auto

lemma upload_visit_file_events:
  assumes "list_all plain s" and "list_all plain q"
    and "upload_visit s d (s @ q) (FileInfo False) None w = (r, w')"
  shows "\<exists>evs. trace w' = trace w @ evs \<and> fail_fast dropped_up r evs"
  using assms Join_plain [of q d]
  by (auto simp: upload_visit_def Rel_plain case_prod_beta fail_fast_copy_up
      dest!: os_Open_handle sftp_Create_handle
      split: option.splits sum.splits)

lemma upload_visit_dir_events:
  assumes "list_all plain s" and "list_all plain q"
    and "upload_visit s d (s @ q) (FileInfo True) None w = (r, w')"
  shows "r = None \<and> (\<exists>c. trace w' = trace w @ [(SftpMkdirAll (filepath_Join d [] @ q), c)])"
  using assms upload_visit_dir [OF assms(1,2), of d w] by auto

lemma close_dropped_up: "is_close opn \<Longrightarrow> dropped_up opn"
  by (cases opn) auto

lemma up_names_ff:
  assumes IH: "\<And>name n q' w r w'. (name, n) \<in> set es \<Longrightarrow> list_all plain q' \<Longrightarrow>
      wf_node n \<Longrightarrow> filepath_walk (upload_visit s d) (s @ q') n w = (r, w') \<Longrightarrow>
      \<exists>evs. trace w' = trace w @ evs \<and> fail_fast dropped_up r evs"
    and s: "list_all plain s" and q: "list_all plain q"
    and wf: "list_all (\<lambda>e. plain (fst e) \<and> wf_node (snd e)) es"
    and run: "filepath_walk_names (upload_visit s d) (s @ q) es w = (r, w')"
  shows "\<exists>evs. trace w' = trace w @ evs \<and> fail_fast dropped_up r evs"
  using IH wf run
proof (induction es arbitrary: w)
  case Nil
  then show ?case by simp
next
  case (Cons e es)
  obtain name n where e: "e = (name, n)" by (cases e)
  let ?p = "s @ q @ [name]"
  let ?a = "attempt (OsLstat ?p) (\<lambda>w. Inr ((), w)) w"
  have pl: "plain name" "wf_node n" "list_all plain (q @ [name])"
    using Cons.prems(2) q e by auto
  have j: "filepath_Join (s @ q) [name] = ?p"
    using s q pl by (simp add: Join_plain_plain)
  have t1: "trace (snd ?a) = trace w @ [(OsLstat ?p, err_of (fst ?a))]"
    by (simp add: attempt_noop split: option.splits)
  show ?case
  proof (cases "fst ?a")
    case (Inl err)
    then have "w' = snd ?a" "r = Some err"
      using Cons.prems(3) e j
      by (simp_all add: upload_visit_err case_prod_beta split: sum.splits)
    with t1 Inl show ?thesis by simp
  next
    case (Inr u)
    obtain r1 w2 where c: "filepath_walk (upload_visit s d) ?p n (snd ?a) = (r1, w2)"
      by (cases "filepath_walk (upload_visit s d) ?p n (snd ?a)")
    from Cons.prems(1) [of name n "q @ [name]" "snd ?a" r1 w2] e pl c
    obtain e2 where t2: "trace w2 = trace (snd ?a) @ e2" and f2: "fail_fast dropped_up r1 e2"
      by auto
    show ?thesis
    proof (cases r1)
      case (Some e1)
      then have "w' = w2" "r = r1"
        using Cons.prems(3) e j Inr c by (simp_all add: case_prod_beta split: sum.splits)
      with t1 t2 f2 Inr show ?thesis by simp
    next
      case None
      then have rest: "filepath_walk_names (upload_visit s d) (s @ q) es w2 = (r, w')"
        using Cons.prems(3) e j Inr c by (simp add: case_prod_beta split: sum.splits)
      have "\<exists>evs. trace w' = trace w2 @ evs \<and> fail_fast dropped_up r evs"
      proof (rule Cons.IH [of w2])
        fix name n q' w r w'
        assume "(name, n) \<in> set es" "list_all plain q'" "wf_node n"
          "filepath_walk (upload_visit s d) (s @ q') n w = (r, w')"
        then show "\<exists>evs. trace w' = trace w @ evs \<and> fail_fast dropped_up r evs"
          using Cons.prems(1) [of name n q' w r w'] by simp
      next
        show "list_all (\<lambda>e. plain (fst e) \<and> wf_node (snd e)) es" using Cons.prems(2) by simp
      next
        show "filepath_walk_names (upload_visit s d) (s @ q) es w2 = (r, w')" by (rule rest)
      qed
      then obtain e3 where t3: "trace w' = trace w2 @ e3" and f3: "fail_fast dropped_up r e3"
        by blast
      from f2 None have "fail_fast dropped_up None e2" by simp
      from fail_fast_quiet_append [OF this, of r e3] f3
      have "fail_fast dropped_up r (e2 @ e3)" by simp
      with t1 t2 t3 Inr show ?thesis by simp
    qed
  qed
qed

lemma up_walk_ff:
  assumes s: "list_all plain s"
  shows "list_all plain q \<Longrightarrow> wf_node t \<Longrightarrow>
     filepath_walk (upload_visit s d) (s @ q) t w = (r, w') \<Longrightarrow>
     \<exists>evs. trace w' = trace w @ evs \<and> fail_fast dropped_up r evs"
proof (induction t arbitrary: q w r w')
  case (File b)
  then show ?case
    using upload_visit_file_events [OF s File.prems(1), of d w r w'] by simp
next
  case (Dir es)
  let ?a = "attempt (OsReadDir (s @ q)) (\<lambda>w. Inr ((), w)) w"
  have t1: "trace (snd ?a) = trace w @ [(OsReadDir (s @ q), err_of (fst ?a))]"
    by (simp add: attempt_noop split: option.splits)
  show ?case
  proof (cases "fst ?a")
    case (Inl err)
    then have "w' = snd ?a" "r = Some err"
      using Dir.prems(3) by (simp_all add: upload_visit_err case_prod_beta)
    with t1 Inl show ?thesis by simp
  next
    case (Inr u)
    let ?w2 = "snd (sftp_MkdirAll (filepath_Join d [] @ q) (snd ?a))"
    have rest: "filepath_walk_names (upload_visit s d) (s @ q) es ?w2 = (r, w')"
      using Dir.prems(3) Inr upload_visit_dir [OF s Dir.prems(1), of d "snd ?a"]
      by (simp add: case_prod_beta)
    have "\<exists>evs. trace w' = trace ?w2 @ evs \<and> fail_fast dropped_up r evs"
    proof (rule up_names_ff [OF _ s Dir.prems(1) _ rest])
      fix name n q' w r w'
      assume "(name, n) \<in> set es" "list_all plain q'" "wf_node n"
        "filepath_walk (upload_visit s d) (s @ q') n w = (r, w')"
      then show "\<exists>evs. trace w' = trace w @ evs \<and> fail_fast dropped_up r evs"
        using Dir.IH [of "(name, n)" n q' w r w'] by simp
    next
      show "list_all (\<lambda>e. plain (fst e) \<and> wf_node (snd e)) es" using Dir.prems(2) by simp
    qed
    then obtain e3 where t3: "trace w' = trace ?w2 @ e3" and f3: "fail_fast dropped_up r e3"
      by blast
    have "fail_fast dropped_up r
        ([(OsReadDir (s @ q), None),
          (SftpMkdirAll (filepath_Join d [] @ q),
           err_of (fst (sftp_MkdirAll (filepath_Join d [] @ q) (snd ?a))))] @ e3)"
      using f3 by (cases "err_of (fst (sftp_MkdirAll (filepath_Join d [] @ q) (snd ?a)))") auto
    with t1 t3 Inr show ?thesis by simp
  qed
qed

lemma uploadDirectory_ff:
  assumes wf: "wf_node (localfs w)"
  shows "fail_fast dropped_up (fst (uploadDirectory s d w))
           (new_events w (snd (uploadDirectory s d w)))"
proof (cases "fst (sftp_NewClient w)")
  case (Inl e)
  then show ?thesis
    by (simp add: uploadDirectory_def case_prod_beta)
next
  case (Inr c)
  let ?w1 = "log SftpNewClient None w"
  show ?thesis
  proof (cases "fst (os_Lstat s ?w1)")
    case (Inl e)
    with Inr show ?thesis
      by (cases "err_of (fst (sftp_Client_Close c (log (OsLstat s) (Some e) ?w1)))")
         (simp_all add: uploadDirectory_def filepath_Walk_def case_prod_beta upload_visit_err)
  next
    case n: (Inr n)
    let ?w2 = "log (OsLstat s) None ?w1"
    from n have look: "lookup s (localfs w) = Some n"
      by (auto simp: os_Lstat_fst split: option.splits)
    from wf_lookup [OF wf look] have pl: "list_all plain s" "wf_node n" by simp_all
    obtain r w3 where walk: "filepath_walk (upload_visit s d) s n ?w2 = (r, w3)"
      by (cases "filepath_walk (upload_visit s d) s n ?w2")
    from up_walk_ff [OF pl(1) _ pl(2), of "[]" d ?w2 r w3] walk
    obtain evs where t: "trace w3 = trace ?w2 @ evs" and f: "fail_fast dropped_up r evs"
      by auto
    have res: "fst (uploadDirectory s d w) = r"
      "trace (snd (uploadDirectory s d w)) =
         trace w @ [(SftpNewClient, None), (OsLstat s, None)] @ evs @
           [(SftpClientClose, err_of (fst (sftp_Client_Close c w3)))]"
      using Inr n walk t
      by (simp_all add: uploadDirectory_def filepath_Walk_def case_prod_beta
          del: filepath_walk.simps)
    have "fail_fast dropped_up r
        (evs @ [(SftpClientClose, err_of (fst (sftp_Client_Close c w3)))])"
      by (rule fail_fast_append_closes [OF _ f]) (simp_all add: close_dropped_up)
    with res show ?thesis by simp
  qed
qed

section \<open>The walk of a download\<close>

lemma sftp_Lstat_fst:
  "fst (sftp_Lstat p w) =
     (case fault w (SftpLstat p) of
        Some e \<Rightarrow> Inl e
      | None \<Rightarrow>
          (case lookup p (remotefs w) of
             None \<Rightarrow> Inl (StatusError ''file does not exist'')
           | Some n \<Rightarrow> Inr n))"
  by (auto simp: sftp_Lstat_def attempt_def split: option.splits)

lemma download_step_err: "download_step rd ld p i (Some e) w = (Some e, w)"
  by (simp add: download_step_def)

lemma download_step_dir:
  assumes "list_all plain rd" and "list_all plain q"
  shows "download_step rd ld (rd @ q) (FileInfo True) None w =
     (case os_MkdirAll (filepath_Join ld [] @ q) w of
        (Inl e, w1) \<Rightarrow> (Some (WrapError ''failed to create local directory'' e), w1)
      | (Inr u, w1) \<Rightarrow> (None, w1))"
  using assms Join_plain [of q ld] by (simp add: download_step_def Rel_plain)

lemma download_step_file:
  assumes "list_all plain rd" and "list_all plain q"
  shows "download_step rd ld (rd @ q) (FileInfo False) None w =
           downloadFile (rd @ q) (filepath_Join ld [] @ q) w"
  using assms Join_plain [of q ld] by (simp add: download_step_def Rel_plain)

lemma downloadFile_cases:
  assumes "downloadFile rp lp w = (r, w')" and "dp = filepath_Dir lp"
  shows "remotefs w' = remotefs w \<and> fault w' = fault w \<and> partial w' = partial w \<and>
     ((\<exists>e. trace w' = trace w @ [(SftpOpen rp, Some e)] \<and> localfs w' = localfs w)
    \<or> (\<exists>e c. trace w' = trace w @ [(SftpOpen rp, None), (OsMkdirAll dp, Some e),
                                      (SftpFileClose rp, c)]
          \<and> localfs w' = localfs w)
    \<or> (\<exists>e c fs1. mkdir_all dp (localfs w) = Inr fs1
          \<and> trace w' = trace w @ [(SftpOpen rp, None), (OsMkdirAll dp, None),
                                   (OsCreate lp, Some e), (SftpFileClose rp, c)]
          \<and> localfs w' = fs1)
    \<or> (\<exists>e c1 c2 fs1 fs2. mkdir_all dp (localfs w) = Inr fs1 \<and> create_file lp fs1 = Inr fs2
          \<and> trace w' = trace w @ [(SftpOpen rp, None), (OsMkdirAll dp, None),
                                   (OsCreate lp, None), (CopyDown rp lp, Some e),
                                   (OsClose lp, c1), (SftpFileClose rp, c2)]
          \<and> (localfs w' = fs2 \<or> (\<exists>bb. localfs w' = write_file lp bb fs2)))
    \<or> (\<exists>x c1 c2 fs1 fs2 b. mkdir_all dp (localfs w) = Inr fs1 \<and> create_file lp fs1 = Inr fs2
          \<and> lookup rp (remotefs w) = Some (File b)
          \<and> trace w' = trace w @ [(SftpOpen rp, None), (OsMkdirAll dp, None),
                                   (OsCreate lp, None), (CopyDown rp lp, None),
                                   (OsSync lp, x), (OsClose lp, c1), (SftpFileClose rp, c2)]
          \<and> r = x
          \<and> localfs w' = write_file lp b fs2))"
  using assms
  by (auto simp: downloadFile_def case_prod_beta sftp_Open_fst os_MkdirAll_fst os_Create_fst
      io_Copy_down_fst os_MkdirAll_localfs os_Create_localfs io_Copy_down_localfs
      split: option.splits sum.splits node.splits)

lemma downloadFile_sound:
  "down_sound (\<lambda>p. p = lp) w (snd (downloadFile rp lp w))"
proof -
  obtain r w' where run: "downloadFile rp lp w = (r, w')"
    by (cases "downloadFile rp lp w")
  let ?dp = "filepath_Dir lp"
  from downloadFile_cases [OF run refl]
  have env: "remotefs w' = remotefs w" "fault w' = fault w" "partial w' = partial w"
    and cases: "(\<exists>e. trace w' = trace w @ [(SftpOpen rp, Some e)] \<and> localfs w' = localfs w)
    \<or> (\<exists>e c. trace w' = trace w @ [(SftpOpen rp, None), (OsMkdirAll ?dp, Some e),
                                      (SftpFileClose rp, c)]
          \<and> localfs w' = localfs w)
    \<or> (\<exists>e c fs1. mkdir_all ?dp (localfs w) = Inr fs1
          \<and> trace w' = trace w @ [(SftpOpen rp, None), (OsMkdirAll ?dp, None),
                                   (OsCreate lp, Some e), (SftpFileClose rp, c)]
          \<and> localfs w' = fs1)
    \<or> (\<exists>e c1 c2 fs1 fs2. mkdir_all ?dp (localfs w) = Inr fs1 \<and> create_file lp fs1 = Inr fs2
          \<and> trace w' = trace w @ [(SftpOpen rp, None), (OsMkdirAll ?dp, None),
                                   (OsCreate lp, None), (CopyDown rp lp, Some e),
                                   (OsClose lp, c1), (SftpFileClose rp, c2)]
          \<and> (localfs w' = fs2 \<or> (\<exists>bb. localfs w' = write_file lp bb fs2)))
    \<or> (\<exists>x c1 c2 fs1 fs2 b. mkdir_all ?dp (localfs w) = Inr fs1 \<and> create_file lp fs1 = Inr fs2
          \<and> lookup rp (remotefs w) = Some (File b)
          \<and> trace w' = trace w @ [(SftpOpen rp, None), (OsMkdirAll ?dp, None),
                                   (OsCreate lp, None), (CopyDown rp lp, None),
                                   (OsSync lp, x), (OsClose lp, c1), (SftpFileClose rp, c2)]
          \<and> r = x
          \<and> localfs w' = write_file lp b fs2)"
    by blast+
  have "down_sound (\<lambda>p. p = lp) w w'"
    using cases
  proof (elim disjE exE conjE)
    fix e
    assume "trace w' = trace w @ [(SftpOpen rp, Some e)]" "localfs w' = localfs w"
    then show ?thesis
      unfolding sound_run_def written_def kept_def using env by auto
  next
    fix e c
    assume "trace w' = trace w @ [(SftpOpen rp, None), (OsMkdirAll ?dp, Some e),
                                      (SftpFileClose rp, c)]" "localfs w' = localfs w"
    then show ?thesis
      unfolding sound_run_def written_def kept_def using env by auto
  next
    fix e c fs1
    assume mk: "mkdir_all ?dp (localfs w) = Inr fs1"
      and tr: "trace w' = trace w @ [(SftpOpen rp, None), (OsMkdirAll ?dp, None),
                                   (OsCreate lp, Some e), (SftpFileClose rp, c)]"
      and lf: "localfs w' = fs1"
    show ?thesis
      unfolding sound_run_def written_def kept_def
      using env tr lf mkdir_all_keeps [OF mk] stat_mkdir_all [OF mk, of ?dp]
      by auto
  next
    fix e c1 c2 fs1 fs2
    assume mk: "mkdir_all ?dp (localfs w) = Inr fs1"
      and cf: "create_file lp fs1 = Inr fs2"
      and tr: "trace w' = trace w @ [(SftpOpen rp, None), (OsMkdirAll ?dp, None),
                                   (OsCreate lp, None), (CopyDown rp lp, Some e),
                                   (OsClose lp, c1), (SftpFileClose rp, c2)]"
      and lf: "localfs w' = fs2"
    have d1: "stat ?dp fs1 = Some DirE"
      using stat_mkdir_all [OF mk, of ?dp] by simp
    have st: "stat p (localfs w') = Some x"
      if "stat p (localfs w) = Some x" "p \<noteq> lp \<or> x = DirE" for p x
    proof -
      from mkdir_all_keeps [OF mk that(1)] have a: "stat p fs1 = Some x" .
      show ?thesis
        using a that(2) lf stat_create_file [OF cf, of p] create_file_not_dir [OF cf] by auto
    qed
    have d3: "stat ?dp (localfs w') = Some DirE"
      using d1 lf stat_create_file [OF cf, of ?dp] create_file_not_dir [OF cf]
      by auto
    show ?thesis
      unfolding sound_run_def written_def kept_def
      using env tr st d3 by auto
  next
    fix e c1 c2 fs1 fs2 bb
    assume mk: "mkdir_all ?dp (localfs w) = Inr fs1"
      and cf: "create_file lp fs1 = Inr fs2"
      and tr: "trace w' = trace w @ [(SftpOpen rp, None), (OsMkdirAll ?dp, None),
                                   (OsCreate lp, None), (CopyDown rp lp, Some e),
                                   (OsClose lp, c1), (SftpFileClose rp, c2)]"
      and lf: "localfs w' = write_file lp bb fs2"
    have d1: "stat ?dp fs1 = Some DirE"
      using stat_mkdir_all [OF mk, of ?dp] by simp
    have st: "stat p (localfs w') = Some x"
      if "stat p (localfs w) = Some x" "p \<noteq> lp \<or> x = DirE" for p x
    proof -
      from mkdir_all_keeps [OF mk that(1)] have a: "stat p fs1 = Some x" .
      have b: "stat p fs2 = Some x"
        using a that(2) stat_create_file [OF cf, of p] create_file_not_dir [OF cf] by auto
      from lf b that(2) show ?thesis
        by (auto simp: stat_write_file)
    qed
    have d3: "stat ?dp (localfs w') = Some DirE"
      using d1 lf stat_create_file [OF cf, of ?dp] create_file_not_dir [OF cf]
      by (auto simp: stat_write_file)
    show ?thesis
      unfolding sound_run_def written_def kept_def
      using env tr st d3 by auto
  next
    fix x c1 c2 fs1 fs2 b
    assume mk: "mkdir_all ?dp (localfs w) = Inr fs1"
      and cf: "create_file lp fs1 = Inr fs2"
      and lk: "lookup rp (remotefs w) = Some (File b)"
      and tr: "trace w' = trace w @ [(SftpOpen rp, None), (OsMkdirAll ?dp, None),
                                   (OsCreate lp, None), (CopyDown rp lp, None),
                                   (OsSync lp, x), (OsClose lp, c1), (SftpFileClose rp, c2)]"
      and lf: "localfs w' = write_file lp b fs2"
    have d1: "stat ?dp fs1 = Some DirE"
      using stat_mkdir_all [OF mk, of ?dp] by simp
    have st: "stat p (localfs w') = Some y"
      if "stat p (localfs w) = Some y" "p \<noteq> lp \<or> y = DirE" for p y
    proof -
      from mkdir_all_keeps [OF mk that(1)] have a: "stat p fs1 = Some y" .
      have b: "stat p fs2 = Some y"
        using a that(2) stat_create_file [OF cf, of p] create_file_not_dir [OF cf] by auto
      from lf b that(2) show ?thesis
        by (auto simp: stat_write_file)
    qed
    have d3: "stat ?dp (localfs w') = Some DirE"
      using d1 lf stat_create_file [OF cf, of ?dp] create_file_not_dir [OF cf]
      by (auto simp: stat_write_file)
    have f3: "stat lp (localfs w') = Some (FileE b)"
      using lf stat_create_file [OF cf, of lp] by (simp add: stat_write_file)
    show ?thesis
      unfolding sound_run_def written_def kept_def
      using env tr st d3 f3 lk by auto
  qed
  with run show ?thesis by simp
qed

lemma fail_fast_sync:
  "fail_fast is_close x [(OsSync lp, x), (OsClose lp, c1), (SftpFileClose rp, c2)]"
  by (cases x; cases c1; cases c2) auto

lemma downloadFile_ff:
  "\<exists>evs. trace (snd (downloadFile rp lp w)) = trace w @ evs \<and>
         fail_fast is_close (fst (downloadFile rp lp w)) evs"
  by (auto simp: downloadFile_def case_prod_beta fail_fast_sync
      dest!: os_Create_handle sftp_Open_handle split: sum.splits option.splits)

lemma down_sound_MkdirAll: "down_sound (\<lambda>p. False) w (snd (os_MkdirAll t w))"
proof (cases "fst (os_MkdirAll t w)")
  case (Inl e)
  then show ?thesis
    unfolding sound_run_def written_def kept_def
    by (auto simp: os_MkdirAll_localfs)
next
  case (Inr u)
  then obtain fs where fs: "mkdir_all t (localfs w) = Inr fs" "localfs (snd (os_MkdirAll t w)) = fs"
    by (auto simp: os_MkdirAll_localfs os_MkdirAll_fst split: option.splits sum.splits)
  show ?thesis
    unfolding sound_run_def written_def kept_def
    using fs Inr mkdir_all_keeps [OF fs(1)] stat_mkdir_all [OF fs(1), of t]
    by auto
qed

lemma down_sound_attempt:
  "down_sound (\<lambda>p. False) w (snd (attempt (SftpReadDir p) (\<lambda>w. Inr (x, w)) w))"
  by (auto simp: attempt_noop intro!: sound_run_log split: option.splits)

lemma down_names_sound:
  assumes IH: "\<And>name n q' w r w'. (name, n) \<in> set es \<Longrightarrow> list_all plain q' \<Longrightarrow>
      wf_node n \<Longrightarrow>
      sftp_walk (download_step s d) (s @ q') n w = (r, w') \<Longrightarrow>
      down_sound (prefix (filepath_Join d [] @ q')) w w'"
    and s: "list_all plain s" and q: "list_all plain q"
    and dist: "distinct (map fst es)"
    and wf: "list_all (\<lambda>e. plain (fst e) \<and> wf_node (snd e)) es"
    and run: "sftp_walk_names (download_step s d) (s @ q) es w = (r, w')"
  shows "down_sound (\<lambda>p. \<exists>name \<in> fst ` set es. prefix (filepath_Join d [] @ q @ [name]) p) w w'"
  using IH dist wf run
proof (induction es arbitrary: w)
  case Nil
  then show ?case by (simp add: sound_run_refl)
next
  case (Cons e es)
  obtain name n where e: "e = (name, n)" by (cases e)
  let ?R = "filepath_Join d []"
  have pl: "plain name" "wf_node n" "list_all plain (q @ [name])"
    using Cons.prems(3) q e by auto
  have j: "filepath_Join (s @ q) [name] = s @ q @ [name]"
    using s q pl by (simp add: Join_plain_plain)
  obtain r1 w2 where c: "sftp_walk (download_step s d) (s @ q @ [name]) n w = (r1, w2)"
    by (cases "sftp_walk (download_step s d) (s @ q @ [name]) n w")
  have "down_sound (prefix (?R @ (q @ [name]))) w w2"
    using Cons.prems(1) [of name n "q @ [name]" w r1 w2] e pl c by simp
  then have child: "down_sound (prefix (?R @ q @ [name])) w w2" by simp
  show ?case
  proof (cases r1)
    case (Some e1)
    then have "w' = w2"
      using Cons.prems(4) e j c by (simp add: case_prod_beta)
    with child have "down_sound (prefix (?R @ q @ [name])) w w'" by simp
    then show ?thesis
      by (rule sound_run_mono) (auto simp: e)
  next
    case None
    then have rest: "sftp_walk_names (download_step s d) (s @ q) es w2 = (r, w')"
      using Cons.prems(4) e j c by (simp add: case_prod_beta)
    have ih: "down_sound (\<lambda>p. \<exists>name \<in> fst ` set es. prefix (?R @ q @ [name]) p) w2 w'"
    proof (rule Cons.IH [of w2])
      fix name n q' w r w'
      assume "(name, n) \<in> set es" "list_all plain q'" "wf_node n"
        "sftp_walk (download_step s d) (s @ q') n w = (r, w')"
      then show "down_sound (prefix (?R @ q')) w w'"
        using Cons.prems(1) [of name n q' w r w'] by simp
    next
      show "distinct (map fst es)" using Cons.prems(2) by simp
    next
      show "list_all (\<lambda>e. plain (fst e) \<and> wf_node (snd e)) es" using Cons.prems(3) by simp
    next
      show "sftp_walk_names (download_step s d) (s @ q) es w2 = (r, w')" by (rule rest)
    qed
    have dis: "\<not> (\<exists>name' \<in> fst ` set es. prefix (?R @ q @ [name']) p)"
      if "prefix (?R @ q @ [name]) p" for p
    proof
      assume "\<exists>name' \<in> fst ` set es. prefix (?R @ q @ [name']) p"
      then obtain name' where n': "name' \<in> fst ` set es" "prefix (?R @ q @ [name']) p"
        by blast
      from that n'(2) have "name = name'"
        using prefix_sibling [of "?R @ q" name p name'] by simp
      with n'(1) Cons.prems(2) e show False by auto
    qed
    from sound_run_comp [OF child ih dis]
    show ?thesis
      by (rule sound_run_mono) (auto simp: e)
  qed
qed

lemma down_walk_sound:
  assumes s: "list_all plain s"
  shows "list_all plain q \<Longrightarrow> wf_node t \<Longrightarrow>
     sftp_walk (download_step s d) (s @ q) t w = (r, w') \<Longrightarrow>
     down_sound (prefix (filepath_Join d [] @ q)) w w'"
proof (induction t arbitrary: q w r w')
  case (File b)
  have "down_sound (\<lambda>p. p = filepath_Join d [] @ q) w w'"
    using downloadFile_sound [of "filepath_Join d [] @ q" w "s @ q"] File.prems(3)
      download_step_file [OF s File.prems(1), of d w]
    by simp
  then show ?case by (rule sound_run_mono) simp
next
  case (Dir es)
  let ?R = "filepath_Join d []"
  let ?w1 = "snd (os_MkdirAll (?R @ q) w)"
  have a: "down_sound (\<lambda>p. False) w ?w1"
    by (rule down_sound_MkdirAll)
  note step = download_step_dir [OF s Dir.prems(1), of d w]
  show ?case
  proof (cases "fst (os_MkdirAll (?R @ q) w)")
    case (Inl err)
    then have "w' = ?w1"
      using Dir.prems(3) step by (simp add: case_prod_beta)
    with a have "down_sound (\<lambda>p. False) w w'" by simp
    then show ?thesis by (rule sound_run_mono) simp
  next
    case (Inr u)
    let ?w2 = "snd (attempt (SftpReadDir (s @ q)) (\<lambda>w. Inr ((), w)) ?w1)"
    have b: "down_sound (\<lambda>p. False) ?w1 ?w2"
      by (rule down_sound_attempt)
    have ab: "down_sound (\<lambda>p. False) w ?w2"
      using sound_run_comp [OF a b] by simp
    show ?thesis
    proof (cases "fst (attempt (SftpReadDir (s @ q)) (\<lambda>w. Inr ((), w)) ?w1)")
      case (Inl err)
      then have "w' = ?w2"
        using Dir.prems(3) step Inr by (simp add: case_prod_beta download_step_err)
      with ab have "down_sound (\<lambda>p. False) w w'" by simp
      then show ?thesis by (rule sound_run_mono) simp
    next
      case rd: (Inr u')
      have rest: "sftp_walk_names (download_step s d) (s @ q) es ?w2 = (r, w')"
        using Dir.prems(3) step Inr rd by (simp add: case_prod_beta)
      have ih: "down_sound (\<lambda>p. \<exists>name \<in> fst ` set es. prefix (?R @ q @ [name]) p) ?w2 w'"
      proof (rule down_names_sound [OF _ s Dir.prems(1) _ _ rest])
        fix name n q' w r w'
        assume "(name, n) \<in> set es" "list_all plain q'" "wf_node n"
          "sftp_walk (download_step s d) (s @ q') n w = (r, w')"
        then show "down_sound (prefix (?R @ q')) w w'"
          using Dir.IH [of "(name, n)" n q' w r w'] by simp
      next
        show "distinct (map fst es)" using Dir.prems(2) by simp
      next
        show "list_all (\<lambda>e. plain (fst e) \<and> wf_node (snd e)) es" using Dir.prems(2) by simp
      qed
      from sound_run_comp [OF ab ih]
      have "down_sound (\<lambda>p. False \<or> (\<exists>name \<in> fst ` set es. prefix (?R @ q @ [name]) p)) w w'"
        by simp
      then show ?thesis
        by (rule sound_run_mono) (auto dest: prefix_child)
    qed
  qed
qed

lemma down_names_ff:
  assumes IH: "\<And>name n q' w r w'. (name, n) \<in> set es \<Longrightarrow> list_all plain q' \<Longrightarrow>
      wf_node n \<Longrightarrow> sftp_walk (download_step s d) (s @ q') n w = (r, w') \<Longrightarrow>
      \<exists>evs. trace w' = trace w @ evs \<and> fail_fast is_close r evs"
    and s: "list_all plain s" and q: "list_all plain q"
    and wf: "list_all (\<lambda>e. plain (fst e) \<and> wf_node (snd e)) es"
    and run: "sftp_walk_names (download_step s d) (s @ q) es w = (r, w')"
  shows "\<exists>evs. trace w' = trace w @ evs \<and> fail_fast is_close r evs"
  using IH wf run
proof (induction es arbitrary: w)
  case Nil
  then show ?case by simp
next
  case (Cons e es)
  obtain name n where e: "e = (name, n)" by (cases e)
  let ?p = "s @ q @ [name]"
  have pl: "plain name" "wf_node n" "list_all plain (q @ [name])"
    using Cons.prems(2) q e by auto
  have j: "filepath_Join (s @ q) [name] = ?p"
    using s q pl by (simp add: Join_plain_plain)
  obtain r1 w2 where c: "sftp_walk (download_step s d) ?p n w = (r1, w2)"
    by (cases "sftp_walk (download_step s d) ?p n w")
  from Cons.prems(1) [of name n "q @ [name]" w r1 w2] e pl c
  obtain e2 where t2: "trace w2 = trace w @ e2" and f2: "fail_fast is_close r1 e2"
    by auto
  show ?case
  proof (cases r1)
    case (Some e1)
    then have "w' = w2" "r = r1"
      using Cons.prems(3) e j c by (simp_all add: case_prod_beta)
    with t2 f2 show ?thesis by simp
  next
    case None
    then have rest: "sftp_walk_names (download_step s d) (s @ q) es w2 = (r, w')"
      using Cons.prems(3) e j c by (simp add: case_prod_beta)
    have "\<exists>evs. trace w' = trace w2 @ evs \<and> fail_fast is_close r evs"
    proof (rule Cons.IH [of w2])
      fix name n q' w r w'
      assume "(name, n) \<in> set es" "list_all plain q'" "wf_node n"
        "sftp_walk (download_step s d) (s @ q') n w = (r, w')"
      then show "\<exists>evs. trace w' = trace w @ evs \<and> fail_fast is_close r evs"
        using Cons.prems(1) [of name n q' w r w'] by simp
    next
      show "list_all (\<lambda>e. plain (fst e) \<and> wf_node (snd e)) es" using Cons.prems(2) by simp
    next
      show "sftp_walk_names (download_step s d) (s @ q) es w2 = (r, w')" by (rule rest)
    qed
    then obtain e3 where t3: "trace w' = trace w2 @ e3" and f3: "fail_fast is_close r e3"
      by blast
    from f2 None have "fail_fast is_close None e2" by simp
    from fail_fast_quiet_append [OF this, of r e3] f3
    have "fail_fast is_close r (e2 @ e3)" by simp
    with t2 t3 show ?thesis by simp
  qed
qed

lemma down_walk_ff:
  assumes s: "list_all plain s"
  shows "list_all plain q \<Longrightarrow> wf_node t \<Longrightarrow>
     sftp_walk (download_step s d) (s @ q) t w = (r, w') \<Longrightarrow>
     \<exists>evs. trace w' = trace w @ evs \<and> fail_fast is_close r evs"
proof (induction t arbitrary: q w r w')
  case (File b)
  then show ?case
    using downloadFile_ff [of "s @ q" "filepath_Join d [] @ q" w]
      download_step_file [OF s File.prems(1), of d w]
    by simp
next
  case (Dir es)
  let ?R = "filepath_Join d []"
  let ?m = "os_MkdirAll (?R @ q) w"
  note step = download_step_dir [OF s Dir.prems(1), of d w]
  show ?case
  proof (cases "fst ?m")
    case (Inl err)
    then have "w' = snd ?m" "r = Some (WrapError ''failed to create local directory'' err)"
      using Dir.prems(3) step by (simp_all add: case_prod_beta)
    with Inl show ?thesis by simp
  next
    case (Inr u)
    let ?a = "attempt (SftpReadDir (s @ q)) (\<lambda>w. Inr ((), w)) (snd ?m)"
    have t1: "trace (snd ?a) = trace w @ [(OsMkdirAll (?R @ q), None),
        (SftpReadDir (s @ q), err_of (fst ?a))]"
      using Inr by (simp add: attempt_noop split: option.splits)
    show ?thesis
    proof (cases "fst ?a")
      case (Inl err)
      then have "w' = snd ?a" "r = Some err"
        using Dir.prems(3) step Inr by (simp_all add: case_prod_beta download_step_err)
      with t1 Inl show ?thesis by simp
    next
      case rd: (Inr u')
      have rest: "sftp_walk_names (download_step s d) (s @ q) es (snd ?a) = (r, w')"
        using Dir.prems(3) step Inr rd by (simp add: case_prod_beta)
      have "\<exists>evs. trace w' = trace (snd ?a) @ evs \<and> fail_fast is_close r evs"
      proof (rule down_names_ff [OF _ s Dir.prems(1) _ rest])
        fix name n q' w r w'
        assume "(name, n) \<in> set es" "list_all plain q'" "wf_node n"
          "sftp_walk (download_step s d) (s @ q') n w = (r, w')"
        then show "\<exists>evs. trace w' = trace w @ evs \<and> fail_fast is_close r evs"
          using Dir.IH [of "(name, n)" n q' w r w'] by simp
      next
        show "list_all (\<lambda>e. plain (fst e) \<and> wf_node (snd e)) es" using Dir.prems(2) by simp
      qed
      then obtain e3 where t3: "trace w' = trace (snd ?a) @ e3"
        and f3: "fail_fast is_close r e3"
        by blast
      with t1 rd show ?thesis by simp
    qed
  qed
qed

lemma downloadDirectory_ff:
  assumes wf: "wf_node (remotefs w)"
  shows "fail_fast is_close (fst (downloadDirectory s d w))
           (new_events w (snd (downloadDirectory s d w)))"
proof (cases "fst (sftp_Lstat s w)")
  case (Inl e)
  then show ?thesis
    by (simp add: downloadDirectory_def sftp_Walk_def case_prod_beta download_step_err)
next
  case n: (Inr n)
  let ?w1 = "log (SftpLstat s) None w"
  from n have look: "lookup s (remotefs w) = Some n"
    by (auto simp: sftp_Lstat_fst split: option.splits)
  from wf_lookup [OF wf look] have pl: "list_all plain s" "wf_node n" by simp_all
  obtain r w2 where walk: "sftp_walk (download_step s d) s n ?w1 = (r, w2)"
    by (cases "sftp_walk (download_step s d) s n ?w1")
  from down_walk_ff [OF pl(1) _ pl(2), of "[]" d ?w1 r w2] walk
  obtain evs where t: "trace w2 = trace ?w1 @ evs" and f: "fail_fast is_close r evs"
    by auto
  have "fst (downloadDirectory s d w) = r"
    "trace (snd (downloadDirectory s d w)) = trace w @ (SftpLstat s, None) # evs"
    using n walk t
    by (simp_all add: downloadDirectory_def sftp_Walk_def case_prod_beta
        del: sftp_walk.simps)
  with f show ?thesis by simp
qed

lemma downloadDirectory_sound:
  assumes wf: "wf_node (remotefs w)"
  shows "down_sound (prefix (filepath_Join d [])) w (snd (downloadDirectory s d w))"
proof (cases "fst (sftp_Lstat s w)")
  case (Inl e)
  then have "snd (downloadDirectory s d w) = log (SftpLstat s) (Some e) w"
    by (simp add: downloadDirectory_def sftp_Walk_def case_prod_beta download_step_err)
  moreover have "down_sound (\<lambda>p. False) w (log (SftpLstat s) (Some e) w)"
    by (rule sound_run_log) simp_all
  ultimately have "down_sound (\<lambda>p. False) w (snd (downloadDirectory s d w))" by simp
  then show ?thesis by (rule sound_run_mono) simp
next
  case n: (Inr n)
  let ?w1 = "log (SftpLstat s) None w"
  from n have look: "lookup s (remotefs w) = Some n"
    by (auto simp: sftp_Lstat_fst split: option.splits)
  from wf_lookup [OF wf look] have pl: "list_all plain s" "wf_node n" by simp_all
  obtain r w2 where walk: "sftp_walk (download_step s d) s n ?w1 = (r, w2)"
    by (cases "sftp_walk (download_step s d) s n ?w1")
  from down_walk_sound [OF pl(1) _ pl(2), of "[]" d ?w1 r w2] walk
  have b: "down_sound (prefix (filepath_Join d [])) ?w1 w2" by simp
  have a: "down_sound (\<lambda>p. False) w ?w1"
    by (rule sound_run_log) simp_all
  have "snd (downloadDirectory s d w) = w2"
    using n walk
    by (simp add: downloadDirectory_def sftp_Walk_def case_prod_beta del: sftp_walk.simps)
  with sound_run_comp [OF a b] show ?thesis by simp
qed


section \<open>Upload of a directory\<close>

lemma uploadDirectory_sound:
  assumes wf: "wf_node (localfs w)"
  shows "up_sound (prefix (filepath_Join d [])) w (snd (uploadDirectory s d w))"
proof (cases "fst (sftp_NewClient w)")
  case (Inl e)
  then have "snd (uploadDirectory s d w) = log SftpNewClient (Some e) w"
    by (simp add: uploadDirectory_def case_prod_beta)
  moreover have "up_sound (\<lambda>p. False) w (log SftpNewClient (Some e) w)"
    by (rule sound_run_log) simp_all
  ultimately have "up_sound (\<lambda>p. False) w (snd (uploadDirectory s d w))" by simp
  then show ?thesis by (rule sound_run_mono) simp
next
  case (Inr c)
  let ?w1 = "log SftpNewClient None w"
  have a: "up_sound (\<lambda>p. False) w ?w1"
    by (rule sound_run_log) simp_all
  show ?thesis
  proof (cases "fst (os_Lstat s ?w1)")
    case (Inl e)
    let ?w2 = "log (OsLstat s) (Some e) ?w1"
    let ?w3 = "log SftpClientClose (err_of (fst (sftp_Client_Close c ?w2))) ?w2"
    have "snd (uploadDirectory s d w) = ?w3"
      using Inr Inl
      by (simp add: uploadDirectory_def filepath_Walk_def case_prod_beta upload_visit_err)
    moreover have "up_sound (\<lambda>p. False) ?w1 ?w2" by (rule sound_run_log) simp_all
    moreover have "up_sound (\<lambda>p. False) ?w2 ?w3" by (rule sound_run_log) simp_all
    ultimately have "up_sound (\<lambda>p. False) w (snd (uploadDirectory s d w))"
      using sound_run_comp [OF a, of "\<lambda>p. False" ?w2]
        sound_run_comp [of localfs remotefs SftpMkdirAll CopyUp "\<lambda>p. False" w ?w2 "\<lambda>p. False" ?w3]
      by simp
    then show ?thesis by (rule sound_run_mono) simp
  next
    case n: (Inr n)
    let ?w2 = "log (OsLstat s) None ?w1"
    from n have look: "lookup s (localfs w) = Some n"
      by (auto simp: os_Lstat_fst split: option.splits)
    from wf_lookup [OF wf look] have pl: "list_all plain s" "wf_node n" by simp_all
    obtain r w3 where walk: "filepath_walk (upload_visit s d) s n ?w2 = (r, w3)"
      by (cases "filepath_walk (upload_visit s d) s n ?w2")
    have look2: "lookup (s @ []) (localfs ?w2) = Some n" using look by simp
    from up_walk_sound [OF pl(1) _ pl(2) look2, of d r w3] walk
    have b: "up_sound (prefix (filepath_Join d [])) ?w2 w3" by simp
    have a2: "up_sound (\<lambda>p. False) ?w1 ?w2" by (rule sound_run_log) simp_all
    let ?w4 = "log SftpClientClose (err_of (fst (sftp_Client_Close c w3))) w3"
    have c4: "up_sound (\<lambda>p. False) w3 ?w4" by (rule sound_run_log) simp_all
    have fin: "snd (uploadDirectory s d w) = ?w4"
      using Inr n walk
      by (simp add: uploadDirectory_def filepath_Walk_def case_prod_beta
          del: filepath_walk.simps)
    from sound_run_comp [OF a a2] have "up_sound (\<lambda>p. False) w ?w2" by simp
    from sound_run_comp [OF this b] have "up_sound (prefix (filepath_Join d [])) w w3" by simp
    from sound_run_comp [OF this c4] have "up_sound (prefix (filepath_Join d [])) w ?w4" by simp
    with fin show ?thesis by simp
  qed
qed

lemma Upload_directory_walk:
  assumes T: "lookup src (localfs w) = Some (Dir es)"
    and ok: "fst (Upload src dst w) = None"
    and w3: "w3 = log (OsLstat src) None (log SftpNewClient None (log (OsStat src) None w))"
  shows "fst (filepath_walk (upload_visit src dst) src (Dir es) w3) = None
      \<and> remotefs (snd (Upload src dst w)) =
          remotefs (snd (filepath_walk (upload_visit src dst) src (Dir es) w3))
      \<and> (\<exists>c. trace (snd (Upload src dst w)) =
          trace (snd (filepath_walk (upload_visit src dst) src (Dir es) w3)) @
            [(SftpClientClose, c)])"
  using assms
  by (auto simp: Upload_def uploadDirectory_def filepath_Walk_def case_prod_beta os_Stat_fst
      sftp_NewClient_fst os_Lstat_fst upload_visit_err
      simp del: filepath_walk.simps
      split: option.splits sum.splits if_splits)

text \<open>
  What the walk does achieve. Let the local file system be well formed and let the source
  path hold the directory tree \<open>T = Dir es\<close>. When \<open>Upload\<close> returns no error and no
  creation of a destination directory has failed during the run, every node of \<open>T\<close> is
  found under the destination root at the same relative path: a directory of \<open>T\<close>, the
  root and every empty directory included, is a directory there, and a regular file of
  \<open>T\<close> is a regular file there with the same bytes. The second condition cannot be
  read off the result of \<open>Upload\<close>: \<open>uploadDirectory\<close> discards the result of
  \<open>MkdirAll\<close>.
\<close>

lemma Upload_directory_mirrors:
  assumes wf: "wf_node (localfs w)"
    and T: "lookup src (localfs w) = Some (Dir es)"
    and ok: "fst (Upload src dst w) = None"
    and mk: "\<not> list_ex failed_mkdir (new_events w (snd (Upload src dst w)))"
  shows "\<forall>p e. stat p (Dir es) = Some e \<longrightarrow>
           stat (filepath_Join dst p) (remotefs (snd (Upload src dst w))) = Some e"
proof (intro allI impI)
  fix p e
  assume st: "stat p (Dir es) = Some e"
  from wf_lookup [OF wf T] have s: "list_all plain src" and wt: "wf_node (Dir es)"
    by simp_all
  from wf_stat_plain [OF wt st] have pp: "list_all plain p" .
  define w3 where "w3 = log (OsLstat src) None (log SftpNewClient None (log (OsStat src) None w))"
  define w4 where "w4 = snd (filepath_walk (upload_visit src dst) src (Dir es) w3)"
  from Upload_directory_walk [OF T ok w3_def] obtain c where
    walk: "filepath_walk (upload_visit src dst) src (Dir es) w3 = (None, w4)"
    and r5: "remotefs (snd (Upload src dst w)) = remotefs w4"
    and t5: "trace (snd (Upload src dst w)) = trace w4 @ [(SftpClientClose, c)]"
    unfolding w4_def by (metis prod.collapse)
  have l3: "localfs w3 = localfs w"
    and t3: "trace w3 = trace w @ [(OsStat src, None), (SftpNewClient, None), (OsLstat src, None)]"
    by (simp_all add: w3_def)
  have look: "lookup (src @ []) (localfs w3) = Some (Dir es)"
    using T l3 by simp
  from up_walk_sound [OF s _ wt look, of dst None w4] walk
  have "up_sound (prefix (filepath_Join dst [] @ [])) w3 w4" by simp
  from sound_run_trace [OF this] obtain evs where t4: "trace w4 = trace w3 @ evs" by blast
  have "new_events w (snd (Upload src dst w)) =
      [(OsStat src, None), (SftpNewClient, None), (OsLstat src, None)] @ evs @ [(SftpClientClose, c)]"
    using t3 t4 t5 by (simp add: new_events_def)
  moreover have "new_events w3 w4 = evs"
    using t4 by (simp add: new_events_def)
  ultimately have ok4: "\<not> list_ex failed_mkdir (new_events w3 w4)"
    using mk by (auto simp: list_ex_iff)
  from up_walk_mirror [OF s _ wt look, of dst w4] walk ok4 st
  have "stat (filepath_Join dst [] @ p) (remotefs w4) = Some e" by simp
  then show "stat (filepath_Join dst p) (remotefs (snd (Upload src dst w))) = Some e"
    using Join_plain [OF pp, of dst] r5 by simp
qed

text \<open>The upload of the directory \<open>src\<close> of the example world, which holds a file and an
  empty directory.\<close>

lemma Upload_directory_mirrors_witness:
  "wf_node (localfs ex_world)
   \<and> lookup [''src''] (localfs ex_world) = Some (Dir [(''a.txt'', File [1, 2, 3]), (''sub'', Dir [])])
   \<and> fst (Upload [''src''] [''dst''] ex_world) = None
   \<and> \<not> list_ex failed_mkdir (new_events ex_world (snd (Upload [''src''] [''dst''] ex_world)))
   \<and> stat [''dst'', ''a.txt''] (remotefs (snd (Upload [''src''] [''dst''] ex_world))) = Some (FileE [1, 2, 3])
   \<and> stat [''dst'', ''sub''] (remotefs (snd (Upload [''src''] [''dst''] ex_world))) = Some DirE
   \<and> stat [''dst''] (remotefs (snd (Upload [''src''] [''dst''] ex_world))) = Some DirE"
proof -
  have h1: "wf_node (localfs ex_world)"
    by (simp add: ex_world_def plain_def)
  have h2: "lookup [''src''] (localfs ex_world) =
      Some (Dir [(''a.txt'', File [1, 2, 3]), (''sub'', Dir [])])"
    by (simp add: ex_world_def)
  have h3: "fst (Upload [''src''] [''dst''] ex_world) = None"
    by code_simp
  have h4: "\<not> list_ex failed_mkdir
      (new_events ex_world (snd (Upload [''src''] [''dst''] ex_world)))"
    by code_simp
  note m = Upload_directory_mirrors [OF h1 h2 h3 h4, rule_format]
  have "stat (filepath_Join [''dst''] [''a.txt''])
      (remotefs (snd (Upload [''src''] [''dst''] ex_world))) = Some (FileE [1, 2, 3])"
    by (rule m) simp
  moreover have "stat (filepath_Join [''dst''] [''sub''])
      (remotefs (snd (Upload [''src''] [''dst''] ex_world))) = Some DirE"
    by (rule m) simp
  moreover have "stat (filepath_Join [''dst''] [])
      (remotefs (snd (Upload [''src''] [''dst''] ex_world))) = Some DirE"
    by (rule m) simp
  ultimately show ?thesis
    using h1 h2 h3 h4 by (simp add: filepath_Join_def clean_def)
qed

text \<open>
  Claim C1, at an input where the code does not do what the claim says. The source
  directory holds the file \<open>a.txt\<close> and the empty directory \<open>sub\<close>; on the remote side
  the destination directory exists and \<open>sub\<close> is a regular file in it. The file is
  copied, \<open>MkdirAll\<close> of \<open>dst/sub\<close> fails, its result is discarded, and \<open>Upload\<close>
  returns no error: the directory \<open>sub\<close> of the source tree is no directory under the
  destination root.
\<close>

theorem Upload_misses_directory:
  "lookup [''src''] (localfs collide_world) =
       Some (Dir [(''a.txt'', File [1, 2, 3]), (''sub'', Dir [])])
   \<and> stat [''sub''] (Dir [(''a.txt'', File [1, 2, 3]), (''sub'', Dir [])]) = Some DirE
   \<and> fst (Upload [''src''] [''dst''] collide_world) = None
   \<and> stat (filepath_Join [''dst''] [''sub''])
         (remotefs (snd (Upload [''src''] [''dst''] collide_world))) = Some (FileE [9])
   \<and> remotefs (snd (Upload [''src''] [''dst''] collide_world)) =
       Dir [(''dst'', Dir [(''sub'', File [9]), (''a.txt'', File [1, 2, 3])])]
   \<and> new_events collide_world (snd (Upload [''src''] [''dst''] collide_world)) =
       [(OsStat [''src''], None), (SftpNewClient, None), (OsLstat [''src''], None),
        (OsReadDir [''src''], None), (SftpMkdirAll [''dst''], None),
        (OsLstat [''src'', ''a.txt''], None),
        (OsOpen [''src'', ''a.txt''], None), (SftpCreate [''dst'', ''a.txt''], None),
        (CopyUp [''src'', ''a.txt''] [''dst'', ''a.txt''], None),
        (SftpFileClose [''dst'', ''a.txt''], None), (OsClose [''src'', ''a.txt''], None),
        (OsLstat [''src'', ''sub''], None), (OsReadDir [''src'', ''sub''], None),
        (SftpMkdirAll [''dst'', ''sub''],
           Some (PathError ''mkdir'' [''dst'', ''sub''] ''ENOTDIR'')),
        (SftpClientClose, None)]"
  by code_simp

section \<open>The first failure of a directory transfer\<close>

text \<open>The upload of a directory with the files \<open>a\<close>, \<open>b\<close> and \<open>c\<close>, where the copy
  of \<open>b\<close> fails: the file \<open>a\<close> is at the destination, the file \<open>b\<close> was created and
  is empty, and \<open>c\<close> was never looked at.\<close>

lemma abort_run:
  "fst (uploadDirectory [''src''] [''dst''] abort_world) = Some (StatusError ''Failure'')"
  "new_events abort_world (snd (uploadDirectory [''src''] [''dst''] abort_world)) =
     [(SftpNewClient, None), (OsLstat [''src''], None), (OsReadDir [''src''], None),
      (SftpMkdirAll [''dst''], None),
      (OsLstat [''src'', ''a''], None), (OsOpen [''src'', ''a''], None),
      (SftpCreate [''dst'', ''a''], None), (CopyUp [''src'', ''a''] [''dst'', ''a''], None),
      (SftpFileClose [''dst'', ''a''], None), (OsClose [''src'', ''a''], None),
      (OsLstat [''src'', ''b''], None), (OsOpen [''src'', ''b''], None),
      (SftpCreate [''dst'', ''b''], None),
      (CopyUp [''src'', ''b''] [''dst'', ''b''], Some (StatusError ''Failure'')),
      (SftpFileClose [''dst'', ''b''], None), (OsClose [''src'', ''b''], None),
      (SftpClientClose, None)]"
  "remotefs (snd (uploadDirectory [''src''] [''dst''] abort_world)) =
     Dir [(''dst'', Dir [(''a'', File [1]), (''b'', File [])])]"
  by code_simp+

text \<open>
  Claim C3, as amended. Let the file system that is walked be well formed. In an
  upload of a directory, the first failure of an operation other than a close or the
  creation of a destination directory is followed by nothing but the release of the
  open handles, and its error is the result, unchanged or under a wrapping that names
  the step; when no such operation fails the result is no error. The same holds for a
  download of a directory, for every operation other than a close. Nothing is rolled
  back: when the transfer returns, every directory whose creation succeeded is a
  directory of the destination, and every file whose copy succeeded is a file of the
  destination with the bytes of its source. The error carries what the failing
  operation reported and nothing more, so that it names the failing path only when
  that report does.
\<close>

theorem directory_transfer_fails_fast:
  assumes "wf_node (localfs w)" and "wf_node (remotefs w)"
  shows "fail_fast dropped_up (fst (uploadDirectory s d w))
           (new_events w (snd (uploadDirectory s d w)))
       \<and> (\<forall>dd. (SftpMkdirAll dd, None) \<in> set (new_events w (snd (uploadDirectory s d w))) \<longrightarrow>
             stat dd (remotefs (snd (uploadDirectory s d w))) = Some DirE)
       \<and> (\<forall>ss dd. (CopyUp ss dd, None) \<in> set (new_events w (snd (uploadDirectory s d w))) \<longrightarrow>
             (\<exists>b. lookup ss (localfs w) = Some (File b) \<and>
                  lookup dd (remotefs (snd (uploadDirectory s d w))) = Some (File b)))
       \<and> fail_fast is_close (fst (downloadDirectory s d w))
           (new_events w (snd (downloadDirectory s d w)))
       \<and> (\<forall>dd. (OsMkdirAll dd, None) \<in> set (new_events w (snd (downloadDirectory s d w))) \<longrightarrow>
             stat dd (localfs (snd (downloadDirectory s d w))) = Some DirE)
       \<and> (\<forall>ss dd. (CopyDown ss dd, None) \<in> set (new_events w (snd (downloadDirectory s d w))) \<longrightarrow>
             (\<exists>b. lookup ss (remotefs w) = Some (File b) \<and>
                  lookup dd (localfs (snd (downloadDirectory s d w))) = Some (File b)))"
proof -
  have u: "up_sound (prefix (filepath_Join d [])) w (snd (uploadDirectory s d w))"
    using assms(1) by (rule uploadDirectory_sound)
  have dn: "down_sound (prefix (filepath_Join d [])) w (snd (downloadDirectory s d w))"
    using assms(2) by (rule downloadDirectory_sound)
  from u obtain evs where
    t: "trace (snd (uploadDirectory s d w)) = trace w @ evs"
    and m: "\<And>dd. (SftpMkdirAll dd, None) \<in> set evs \<Longrightarrow>
        stat dd (remotefs (snd (uploadDirectory s d w))) = Some DirE"
    and c: "\<And>ss dd. (CopyUp ss dd, None) \<in> set evs \<Longrightarrow>
        (\<exists>b. lookup ss (localfs w) = Some (File b) \<and>
             stat dd (remotefs (snd (uploadDirectory s d w))) = Some (FileE b))"
    unfolding sound_run_def written_def by blast
  from dn obtain evs' where
    t': "trace (snd (downloadDirectory s d w)) = trace w @ evs'"
    and m': "\<And>dd. (OsMkdirAll dd, None) \<in> set evs' \<Longrightarrow>
        stat dd (localfs (snd (downloadDirectory s d w))) = Some DirE"
    and c': "\<And>ss dd. (CopyDown ss dd, None) \<in> set evs' \<Longrightarrow>
        (\<exists>b. lookup ss (remotefs w) = Some (File b) \<and>
             stat dd (localfs (snd (downloadDirectory s d w))) = Some (FileE b))"
    unfolding sound_run_def written_def by blast
  have e: "new_events w (snd (uploadDirectory s d w)) = evs"
    "new_events w (snd (downloadDirectory s d w)) = evs'"
    using t t' by (simp_all add: new_events_def)
  show ?thesis
    using uploadDirectory_ff [OF assms(1), of s d] downloadDirectory_ff [OF assms(2), of s d]
      m c m' c'
    unfolding e by (simp add: stat_FileE)
qed

theorem directory_transfer_fails_fast_witness:
  "wf_node (localfs abort_world) \<and> wf_node (remotefs abort_world)
   \<and> fail_fast dropped_up (fst (uploadDirectory [''src''] [''dst''] abort_world))
       (new_events abort_world (snd (uploadDirectory [''src''] [''dst''] abort_world)))
   \<and> (CopyUp [''src'', ''a''] [''dst'', ''a''], None)
        \<in> set (new_events abort_world (snd (uploadDirectory [''src''] [''dst''] abort_world)))
   \<and> (\<exists>b. lookup [''src'', ''a''] (localfs abort_world) = Some (File b) \<and>
          lookup [''dst'', ''a'']
            (remotefs (snd (uploadDirectory [''src''] [''dst''] abort_world))) = Some (File b))
   \<and> fail_fast is_close (fst (downloadDirectory [''src''] [''dst''] abort_world))
       (new_events abort_world (snd (downloadDirectory [''src''] [''dst''] abort_world)))"
proof -
  have h1: "wf_node (localfs abort_world)"
    by (simp add: abort_world_def ex_world_def plain_def)
  have h2: "wf_node (remotefs abort_world)"
    by (simp add: abort_world_def ex_world_def)
  have h3: "(CopyUp [''src'', ''a''] [''dst'', ''a''], None)
        \<in> set (new_events abort_world (snd (uploadDirectory [''src''] [''dst''] abort_world)))"
    by (simp add: abort_run)
  show ?thesis
    using h1 h2 h3
      directory_transfer_fails_fast [OF h1 h2, of "[''src'']" "[''dst'']"]
    by blast
qed

text \<open>Against claim C3 as stated: the copy of \<open>src/b\<close> to \<open>dst/b\<close> fails with a status
  error of the sftp server, \<open>uploadDirectory\<close> returns that error as it is, and the
  error names no path.\<close>

theorem returned_error_names_no_path:
  "fst (uploadDirectory [''src''] [''dst''] abort_world) = Some (StatusError ''Failure'')
   \<and> error_path (StatusError ''Failure'') = None
   \<and> (CopyUp [''src'', ''b''] [''dst'', ''b''], Some (StatusError ''Failure''))
        \<in> set (new_events abort_world (snd (uploadDirectory [''src''] [''dst''] abort_world)))"
  by (simp add: abort_run)

section \<open>The transfer of one file\<close>

text \<open>The events of a file transfer, case by case, and the content a transfer that
  returns no error leaves behind.\<close>


lemma downloadFile_events:
  "(\<exists>e. trace (snd (downloadFile rp lp w)) = trace w @ [(SftpOpen rp, Some e)]) \<or>
   (\<exists>e c. trace (snd (downloadFile rp lp w)) = trace w @
      [(SftpOpen rp, None), (OsMkdirAll (filepath_Dir lp), Some e), (SftpFileClose rp, c)]) \<or>
   (\<exists>e c. trace (snd (downloadFile rp lp w)) = trace w @
      [(SftpOpen rp, None), (OsMkdirAll (filepath_Dir lp), None), (OsCreate lp, Some e),
       (SftpFileClose rp, c)]) \<or>
   (\<exists>e c1 c2. trace (snd (downloadFile rp lp w)) = trace w @
      [(SftpOpen rp, None), (OsMkdirAll (filepath_Dir lp), None), (OsCreate lp, None),
       (CopyDown rp lp, Some e), (OsClose lp, c1), (SftpFileClose rp, c2)]) \<or>
   (\<exists>c1 c2. trace (snd (downloadFile rp lp w)) = trace w @
      [(SftpOpen rp, None), (OsMkdirAll (filepath_Dir lp), None), (OsCreate lp, None),
       (CopyDown rp lp, None), (OsSync lp, fst (downloadFile rp lp w)),
       (OsClose lp, c1), (SftpFileClose rp, c2)])"
  by (auto simp: downloadFile_def case_prod_beta
      dest!: os_Create_handle sftp_Open_handle split: sum.splits option.splits)

lemma uploadFile_events:
  "(\<exists>e. trace (snd (uploadFile src dst w)) = trace w @ [(SftpNewClient, Some e)]) \<or>
   (\<exists>e c. trace (snd (uploadFile src dst w)) = trace w @
      [(SftpNewClient, None), (OsOpen src, Some e), (SftpClientClose, c)]) \<or>
   (\<exists>e c1 c2. trace (snd (uploadFile src dst w)) = trace w @
      [(SftpNewClient, None), (OsOpen src, None), (SftpCreate dst, Some e),
       (OsClose src, c1), (SftpClientClose, c2)]) \<or>
   (\<exists>c1 c2 c3. trace (snd (uploadFile src dst w)) = trace w @
      [(SftpNewClient, None), (OsOpen src, None), (SftpCreate dst, None),
       (CopyUp src dst, fst (uploadFile src dst w)),
       (SftpFileClose dst, c1), (OsClose src, c2), (SftpClientClose, c3)])"
  by (auto simp: uploadFile_def case_prod_beta
      dest!: os_Open_handle sftp_Create_handle split: sum.splits option.splits)

lemma UploadV1_events:
  "(\<exists>e. trace (snd (UploadV1 src dst w)) = trace w @ [(OsOpen src, Some e)]) \<or>
   (\<exists>e c. trace (snd (UploadV1 src dst w)) = trace w @
      [(OsOpen src, None), (SftpNewClient, Some e), (OsClose src, c)]) \<or>
   (\<exists>e c1 c2. trace (snd (UploadV1 src dst w)) = trace w @
      [(OsOpen src, None), (SftpNewClient, None), (SftpCreate dst, Some e),
       (SftpClientClose, c1), (OsClose src, c2)]) \<or>
   (\<exists>c1 c2 c3. trace (snd (UploadV1 src dst w)) = trace w @
      [(OsOpen src, None), (SftpNewClient, None), (SftpCreate dst, None),
       (CopyUp src dst, fst (UploadV1 src dst w)),
       (SftpFileClose dst, c1), (SftpClientClose, c2), (OsClose src, c3)])"
  by (auto simp: UploadV1_def case_prod_beta
      dest!: os_Open_handle sftp_Create_handle split: sum.splits option.splits)

lemma Upload_file:
  assumes "fst (os_Stat src w) = Inr st" and "\<not> IsDir st"
  shows "Upload src dst w = uploadFile src dst (log (OsStat src) None w)"
  using assms by (simp add: Upload_def case_prod_beta split: sum.splits)

lemma uploadFile_content:
  assumes "fst (uploadFile src dst w) = None"
  shows "\<exists>b. lookup src (localfs w) = Some (File b) \<and>
             stat dst (remotefs (snd (uploadFile src dst w))) = Some (FileE b)"
  using assms
  by (auto simp: uploadFile_def case_prod_beta os_Open_fst sftp_NewClient_fst
        sftp_Create_fst io_Copy_up_fst sftp_Create_remotefs io_Copy_up_remotefs
        stat_write_file stat_create_file
        split: option.splits sum.splits node.splits if_splits)

lemma UploadV1_content:
  assumes "fst (UploadV1 src dst w) = None"
  shows "\<exists>b. lookup src (localfs w) = Some (File b) \<and>
             stat dst (remotefs (snd (UploadV1 src dst w))) = Some (FileE b)"
  using assms
  by (auto simp: UploadV1_def case_prod_beta os_Open_fst sftp_NewClient_fst
        sftp_Create_fst io_Copy_up_fst sftp_Create_remotefs io_Copy_up_remotefs
        stat_write_file stat_create_file
        split: option.splits sum.splits node.splits if_splits)

lemma downloadFile_content:
  assumes "fst (downloadFile rp lp w) = None"
  shows "\<exists>b. lookup rp (remotefs w) = Some (File b) \<and>
             stat lp (localfs (snd (downloadFile rp lp w))) = Some (FileE b)"
  using assms
  by (auto simp: downloadFile_def case_prod_beta sftp_Open_fst os_MkdirAll_fst
        os_Create_fst io_Copy_down_fst os_Create_localfs os_MkdirAll_localfs
        io_Copy_down_localfs stat_write_file stat_create_file
        split: option.splits sum.splits node.splits if_splits)

section \<open>The order of the steps of a file download\<close>

lemma dl_run:
  "new_events dl_world (snd (downloadFile [''g''] [''x'', ''y''] dl_world)) =
     [(SftpOpen [''g''], None), (OsMkdirAll [''x''], None), (OsCreate [''x'', ''y''], None),
      (CopyDown [''g''] [''x'', ''y''], None), (OsSync [''x'', ''y''], None),
      (OsClose [''x'', ''y''], None), (SftpFileClose [''g''], None)]"
  by (simp add: new_events_def downloadFile_def sftp_Open_def os_MkdirAll_def os_Create_def
      io_Copy_down.simps os_File_Sync.simps os_File_Close.simps sftp_File_Close.simps
      attempt_def log_def filepath_Dir_def clean_def dl_world_def ex_world_def)

text \<open>
  Claim C8. In every run of \<open>downloadFile\<close>, the local file is created only after the
  parent directories of the destination were created without error, the copy starts
  only after the local file was created without error, and when the copy has written
  the bytes without error the events are exactly: open the remote file, create the
  parent directories, create the local file, copy, \<open>Sync\<close> the local file, close the
  local file, close the remote file; the result of \<open>downloadFile\<close> is the result of
  the \<open>Sync\<close>. So the content is synced after the bytes are written and before the
  handle of the local file is released.
\<close>

theorem downloadFile_order:
  "preceded (\<lambda>ev. ev = (OsMkdirAll (filepath_Dir localPath), None))
            (\<lambda>ev. fst ev = OsCreate localPath)
            (new_events w (snd (downloadFile remotePath localPath w)))
   \<and> preceded (\<lambda>ev. ev = (OsCreate localPath, None))
            (\<lambda>ev. fst ev = CopyDown remotePath localPath)
            (new_events w (snd (downloadFile remotePath localPath w)))
   \<and> ((CopyDown remotePath localPath, None)
          \<in> set (new_events w (snd (downloadFile remotePath localPath w))) \<longrightarrow>
       (\<exists>c1 c2. new_events w (snd (downloadFile remotePath localPath w)) =
          [(SftpOpen remotePath, None), (OsMkdirAll (filepath_Dir localPath), None),
           (OsCreate localPath, None), (CopyDown remotePath localPath, None),
           (OsSync localPath, fst (downloadFile remotePath localPath w)),
           (OsClose localPath, c1), (SftpFileClose remotePath, c2)]))"
  using downloadFile_events [of remotePath localPath w] by auto

text \<open>The download of the remote file \<open>g\<close> to \<open>x/y\<close>, where the copy succeeds.\<close>

theorem downloadFile_order_witness:
  "(CopyDown [''g''] [''x'', ''y''], None)
      \<in> set (new_events dl_world (snd (downloadFile [''g''] [''x'', ''y''] dl_world)))
   \<and> preceded (\<lambda>ev. ev = (OsMkdirAll (filepath_Dir [''x'', ''y'']), None))
            (\<lambda>ev. fst ev = OsCreate [''x'', ''y''])
            (new_events dl_world (snd (downloadFile [''g''] [''x'', ''y''] dl_world)))
   \<and> (\<exists>c1 c2. new_events dl_world (snd (downloadFile [''g''] [''x'', ''y''] dl_world)) =
          [(SftpOpen [''g''], None), (OsMkdirAll (filepath_Dir [''x'', ''y'']), None),
           (OsCreate [''x'', ''y''], None), (CopyDown [''g''] [''x'', ''y''], None),
           (OsSync [''x'', ''y''], fst (downloadFile [''g''] [''x'', ''y''] dl_world)),
           (OsClose [''x'', ''y''], c1), (SftpFileClose [''g''], c2)])"
proof -
  have h: "(CopyDown [''g''] [''x'', ''y''], None)
      \<in> set (new_events dl_world (snd (downloadFile [''g''] [''x'', ''y''] dl_world)))"
    by (simp add: dl_run)
  show ?thesis
    using h downloadFile_order [of "[''x'', ''y'']" dl_world "[''g'']"] by blast
qed

section \<open>Upload, then download\<close>

lemma Download_file:
  assumes "fst (Download rp lp w) = None" and "lookup rp (remotefs w) = Some (File b)"
  shows "fst (downloadFile rp lp (log (SftpStat rp) None (log SftpNewClient None w))) = None
       \<and> localfs (snd (Download rp lp w)) =
           localfs (snd (downloadFile rp lp (log (SftpStat rp) None (log SftpNewClient None w))))"
  using assms
  by (auto simp: Download_def case_prod_beta sftp_NewClient_fst sftp_Stat_fst
      split: option.splits sum.splits if_splits)

text \<open>
  Claim C2. Let \<open>F\<close> be a regular local file with content \<open>b\<close>. When \<open>Upload F D\<close>
  returns no error and the following \<open>Download D F'\<close> returns no error, the remote file
  \<open>D\<close> and the local file \<open>F'\<close> both hold exactly the bytes \<open>b\<close>.
\<close>

theorem upload_download_roundtrip:
  assumes "lookup F (localfs w) = Some (File b)"
    and "fst (Upload F D w) = None"
    and "fst (Download D F' (snd (Upload F D w))) = None"
  shows "lookup D (remotefs (snd (Upload F D w))) = Some (File b)
       \<and> lookup F' (localfs (snd (Download D F' (snd (Upload F D w))))) = Some (File b)"
proof -
  have st: "fst (os_Stat F w) = Inr (FileInfo False)"
    using assms(1,2)
    by (auto simp: Upload_def case_prod_beta os_Stat_fst split: option.splits sum.splits)
  have up: "Upload F D w = uploadFile F D (log (OsStat F) None w)"
    using st by (rule Upload_file) simp
  from assms(2) uploadFile_content [of F D "log (OsStat F) None w"] assms(1)
  have r: "lookup D (remotefs (snd (Upload F D w))) = Some (File b)"
    by (auto simp: up stat_FileE)
  from Download_file [OF assms(3) r]
    downloadFile_content [of D F' "log (SftpStat D) None (log SftpNewClient None (snd (Upload F D w)))"]
  have "lookup F' (localfs (snd (Download D F' (snd (Upload F D w))))) = Some (File b)"
    using r by (auto simp: stat_FileE)
  with r show ?thesis by simp
qed

theorem upload_download_roundtrip_witness:
  "lookup [''f''] (localfs ex_world) = Some (File [7, 8])
   \<and> fst (Upload [''f''] [''g''] ex_world) = None
   \<and> fst (Download [''g''] [''x'', ''y''] (snd (Upload [''f''] [''g''] ex_world))) = None
   \<and> lookup [''x'', ''y'']
        (localfs (snd (Download [''g''] [''x'', ''y''] (snd (Upload [''f''] [''g''] ex_world)))))
       = Some (File [7, 8])"
proof -
  have h1: "lookup [''f''] (localfs ex_world) = Some (File [7, 8])"
    by (simp add: ex_world_def)
  have h2: "fst (Upload [''f''] [''g''] ex_world) = None"
    by code_simp
  have h3: "fst (Download [''g''] [''x'', ''y''] (snd (Upload [''f''] [''g''] ex_world))) = None"
    by code_simp
  show ?thesis
    using h1 h2 h3 upload_download_roundtrip [OF h1 h2 h3] by simp
qed

section \<open>Upload and the original upload on a regular file\<close>

lemma uploadFile_events_ok:
  "fst (uploadFile src dst w) = None \<Longrightarrow>
   \<exists>c1 c2 c3. trace (snd (uploadFile src dst w)) = trace w @
      [(SftpNewClient, None), (OsOpen src, None), (SftpCreate dst, None),
       (CopyUp src dst, None), (SftpFileClose dst, c1), (OsClose src, c2),
       (SftpClientClose, c3)]"
  by (auto simp: uploadFile_def case_prod_beta
      dest!: os_Open_handle sftp_Create_handle split: sum.splits option.splits)

lemma UploadV1_events_ok:
  "fst (UploadV1 src dst w) = None \<Longrightarrow>
   \<exists>c1 c2 c3. trace (snd (UploadV1 src dst w)) = trace w @
      [(OsOpen src, None), (SftpNewClient, None), (SftpCreate dst, None),
       (CopyUp src dst, None), (SftpFileClose dst, c1), (SftpClientClose, c2),
       (OsClose src, c3)]"
  by (auto simp: UploadV1_def case_prod_beta
      dest!: os_Open_handle sftp_Create_handle split: sum.splits option.splits)

text \<open>
  Claim C10. Let the local \<open>stat\<close> of the source succeed and report a file that is not
  a directory. Then \<open>Upload\<close> and \<open>UploadV1\<close> leave the same remote file system and do
  not change the local one, one returns no error exactly when the other does, and
  each has released every handle it acquired when it returns. When they return no
  error, each has opened one file-transfer sub-channel, created the destination file,
  copied the bytes of the source to it and closed the three handles, and the
  destination holds the bytes of the source. The two differ in the order of their
  steps: \<open>UploadV1\<close> opens the local file before the sub-channel.
\<close>

theorem Upload_UploadV1_equivalent:
  assumes "fst (os_Stat src w) = Inr st" and "\<not> IsDir st"
  shows "remotefs (snd (Upload src dst w)) = remotefs (snd (UploadV1 src dst w))
       \<and> localfs (snd (Upload src dst w)) = localfs w
       \<and> localfs (snd (UploadV1 src dst w)) = localfs w
       \<and> (fst (Upload src dst w) = None) = (fst (UploadV1 src dst w) = None)
       \<and> open_handles [] (new_events w (snd (Upload src dst w))) = []
       \<and> open_handles [] (new_events w (snd (UploadV1 src dst w))) = []
       \<and> (fst (Upload src dst w) = None \<longrightarrow>
            (\<exists>b c1 c2 c3 d1 d2 d3.
               lookup src (localfs w) = Some (File b)
             \<and> lookup dst (remotefs (snd (Upload src dst w))) = Some (File b)
             \<and> new_events w (snd (Upload src dst w)) =
                 [(OsStat src, None), (SftpNewClient, None), (OsOpen src, None),
                  (SftpCreate dst, None), (CopyUp src dst, None),
                  (SftpFileClose dst, c1), (OsClose src, c2), (SftpClientClose, c3)]
             \<and> new_events w (snd (UploadV1 src dst w)) =
                 [(OsOpen src, None), (SftpNewClient, None),
                  (SftpCreate dst, None), (CopyUp src dst, None),
                  (SftpFileClose dst, d1), (SftpClientClose, d2), (OsClose src, d3)]))"
proof -
  let ?w1 = "log (OsStat src) None w"
  have up: "Upload src dst w = uploadFile src dst ?w1"
    using assms by (rule Upload_file)
  have same: "remotefs (snd (Upload src dst w)) = remotefs (snd (UploadV1 src dst w))
       \<and> localfs (snd (Upload src dst w)) = localfs w
       \<and> localfs (snd (UploadV1 src dst w)) = localfs w
       \<and> (fst (Upload src dst w) = None) = (fst (UploadV1 src dst w) = None)"
    unfolding up
    by (simp add: UploadV1_def uploadFile_def case_prod_beta os_Open_fst sftp_NewClient_fst
        sftp_Create_fst io_Copy_up_fst sftp_Create_remotefs io_Copy_up_remotefs
        split: option.splits sum.splits node.splits)
  have h1: "open_handles [] (new_events w (snd (Upload src dst w))) = []"
    using uploadFile_events [of src dst ?w1] unfolding up by auto
  have h2: "open_handles [] (new_events w (snd (UploadV1 src dst w))) = []"
    using UploadV1_events [of src dst w] by auto
  have ok: "\<exists>b c1 c2 c3 d1 d2 d3.
               lookup src (localfs w) = Some (File b)
             \<and> lookup dst (remotefs (snd (Upload src dst w))) = Some (File b)
             \<and> new_events w (snd (Upload src dst w)) =
                 [(OsStat src, None), (SftpNewClient, None), (OsOpen src, None),
                  (SftpCreate dst, None), (CopyUp src dst, None),
                  (SftpFileClose dst, c1), (OsClose src, c2), (SftpClientClose, c3)]
             \<and> new_events w (snd (UploadV1 src dst w)) =
                 [(OsOpen src, None), (SftpNewClient, None),
                  (SftpCreate dst, None), (CopyUp src dst, None),
                  (SftpFileClose dst, d1), (SftpClientClose, d2), (OsClose src, d3)]"
    if a: "fst (Upload src dst w) = None"
  proof -
    from a same have b: "fst (UploadV1 src dst w) = None" by simp
    from a uploadFile_content [of src dst ?w1]
    obtain bs where c: "lookup src (localfs w) = Some (File bs)"
      "lookup dst (remotefs (snd (Upload src dst w))) = Some (File bs)"
      by (auto simp: up stat_FileE)
    from a uploadFile_events_ok [of src dst ?w1]
    obtain c1 c2 c3 where e1: "new_events w (snd (Upload src dst w)) =
                 [(OsStat src, None), (SftpNewClient, None), (OsOpen src, None),
                  (SftpCreate dst, None), (CopyUp src dst, None),
                  (SftpFileClose dst, c1), (OsClose src, c2), (SftpClientClose, c3)]"
      unfolding up by auto
    from UploadV1_events_ok [OF b]
    obtain d1 d2 d3 where e2: "new_events w (snd (UploadV1 src dst w)) =
                 [(OsOpen src, None), (SftpNewClient, None),
                  (SftpCreate dst, None), (CopyUp src dst, None),
                  (SftpFileClose dst, d1), (SftpClientClose, d2), (OsClose src, d3)]"
      by auto
    from c e1 e2 show ?thesis by blast
  qed
  from same h1 h2 ok show ?thesis by blast
qed

theorem Upload_UploadV1_equivalent_witness:
  "fst (os_Stat [''f''] ex_world) = Inr (FileInfo False)
   \<and> \<not> IsDir (FileInfo False)
   \<and> fst (Upload [''f''] [''g''] ex_world) = None
   \<and> fst (UploadV1 [''f''] [''g''] ex_world) = None
   \<and> remotefs (snd (Upload [''f''] [''g''] ex_world)) =
       remotefs (snd (UploadV1 [''f''] [''g''] ex_world))
   \<and> (\<exists>b. lookup [''f''] (localfs ex_world) = Some (File b)
          \<and> lookup [''g''] (remotefs (snd (Upload [''f''] [''g''] ex_world))) = Some (File b))"
proof -
  have h1: "fst (os_Stat [''f''] ex_world) = Inr (FileInfo False)"
    by (simp add: os_Stat_fst ex_world_def)
  have h2: "\<not> IsDir (FileInfo False)"
    by simp
  have h3: "fst (Upload [''f''] [''g''] ex_world) = None"
    by code_simp
  show ?thesis
    using h1 h2 h3 Upload_UploadV1_equivalent [OF h1 h2, of "[''g'']"] by blast
qed

section \<open>Upload of a path that cannot be inspected\<close>

text \<open>
  Claim C5. When the local \<open>stat\<close> of the source path fails, \<open>Upload\<close> returns the
  stat error, wrapped as \<open>failed to stat source path\<close>, at once: neither file
  system is changed, and the trace gains the failed \<open>stat\<close> and nothing else, so that
  no file-transfer sub-channel is opened and no remote create or copy is attempted.
\<close>

theorem Upload_stat_failure:
  assumes "fst (os_Stat srcPath w) = Inl e"
  shows "fst (Upload srcPath dstPath w) = Some (WrapError ''failed to stat source path'' e)
       \<and> remotefs (snd (Upload srcPath dstPath w)) = remotefs w
       \<and> localfs (snd (Upload srcPath dstPath w)) = localfs w
       \<and> trace (snd (Upload srcPath dstPath w)) = trace w @ [(OsStat srcPath, Some e)]"
proof -
  have "snd (os_Stat srcPath w) = log (OsStat srcPath) (Some e) w"
    using assms unfolding os_Stat_def by (rule attempt_fail)
  with assms have "os_Stat srcPath w = (Inl e, log (OsStat srcPath) (Some e) w)"
    by (metis prod.collapse)
  then show ?thesis by (simp add: Upload_def log_def)
qed

text \<open>The source path \<open>nope\<close> does not exist in the example world.\<close>

theorem Upload_stat_failure_witness:
  "fst (os_Stat [''nope''] ex_world) = Inl (PathError ''stat'' [''nope''] ''ENOENT'')
   \<and> fst (Upload [''nope''] [''dst''] ex_world) =
       Some (WrapError ''failed to stat source path'' (PathError ''stat'' [''nope''] ''ENOENT''))
   \<and> remotefs (snd (Upload [''nope''] [''dst''] ex_world)) = Dir []
   \<and> trace (snd (Upload [''nope''] [''dst''] ex_world)) =
       [(OsStat [''nope''], Some (PathError ''stat'' [''nope''] ''ENOENT''))]"
proof -
  have h: "fst (os_Stat [''nope''] ex_world) = Inl (PathError ''stat'' [''nope''] ''ENOENT'')"
    by (simp add: os_Stat_def attempt_def ex_world_def log_def)
  show ?thesis
    using h Upload_stat_failure [OF h, of "[''dst'']"] by (simp add: ex_world_def)
qed

section \<open>Running a command\<close>

text \<open>
  Claim C6, as amended. \<open>Run\<close> asks for one command sub-channel. When that fails, it
  returns the error with no output and nothing else happens. When it succeeds, the
  command is run on the sub-channel, the sub-channel is closed before \<open>Run\<close> returns,
  whether the command failed or not, and \<open>Run\<close> returns what \<open>CombinedOutput\<close>
  returned: the merged output and the error of running the command. The error of
  closing the sub-channel (\<open>c\<close> below) is not part of the result.
\<close>

theorem Run_one_session_closed:
  "(\<exists>e. fst (Run cmd w) = ([], Some e) \<and>
        trace (snd (Run cmd w)) = trace w @ [(SshNewSession, Some e)]) \<or>
   (\<exists>c. fst (Run cmd w) = fst (ssh_Session_CombinedOutput cmd w) \<and>
        trace (snd (Run cmd w)) =
          trace w @ [(SshNewSession, None),
                     (SshCombinedOutput cmd, snd (fst (Run cmd w))),
                     (SshSessionClose, c)])"
  by (auto simp: Run_def ssh_NewSession_def ssh_Session_CombinedOutput_def
      ssh_Session_Close_def attempt_def log_def split: option.splits sum.splits prod.splits)

text \<open>Against claim C6 as stated: the close of the sub-channel fails with \<open>EOF\<close>, and
  \<open>Run\<close> returns the output with no error.\<close>

theorem Run_drops_close_error:
  "fst (Run ''ls'' close_fails_world) = ([111, 107], None)
   \<and> trace (snd (Run ''ls'' close_fails_world)) =
       [(SshNewSession, None), (SshCombinedOutput ''ls'', None),
        (SshSessionClose, Some (PlainError ''EOF''))]"
  by (simp add: Run_def ssh_NewSession_def ssh_Session_CombinedOutput_def
      ssh_Session_Close_def attempt_def log_def ex_world_def close_fails_world_def)

section \<open>Closing the client\<close>

text \<open>
  Claim C7, as amended. \<open>Close\<close> hands the call to the connection and returns its
  result. After a \<open>Close\<close> that succeeded, a second \<open>Close\<close> is handed to the
  connection again: it returns the error of the connection for a close of a closed
  connection, and changes nothing but the trace.
\<close>

theorem Close_twice:
  "fst (Close w) = None \<Longrightarrow>
     (\<exists>e. fst (Close (snd (Close w))) = Some e \<and>
        snd (Close (snd (Close w))) =
          (snd (Close w))\<lparr>trace := trace (snd (Close w)) @ [(SshClientClose, Some e)]\<rparr>)"
  by (auto simp: Close_def ssh_Client_Close_def attempt_def log_def
      split: option.splits sum.splits prod.splits if_splits)

theorem Close_twice_witness:
  "fst (Close ex_world) = None \<and>
   (\<exists>e. fst (Close (snd (Close ex_world))) = Some e \<and>
      snd (Close (snd (Close ex_world))) =
        (snd (Close ex_world))\<lparr>trace := trace (snd (Close ex_world)) @ [(SshClientClose, Some e)]\<rparr>)"
proof -
  have h: "fst (Close ex_world) = None"
    by (simp add: Close_def ssh_Client_Close_def attempt_def log_def ex_world_def)
  show ?thesis using h Close_twice [OF h] by simp
qed

text \<open>Against claim C7 as stated: the second \<open>Close\<close> returns an error.\<close>

theorem Close_not_idempotent:
  "fst (Close ex_world) = None \<and>
   fst (Close (snd (Close ex_world))) = Some (PlainError ''use of closed network connection'')"
  by (simp add: Close_def ssh_Client_Close_def attempt_def log_def ex_world_def)

section \<open>The host-key policy of a dial\<close>

text \<open>
  Claim C9. \<open>New\<close> either fails to load the known-hosts store and returns that error
  without dialling, or dials once, with the callback that checks against the loaded
  store. \<open>NewUnknown\<close> dials once, with the callback that accepts every key. A dial of
  a configuration without a callback returns an error and leaves the connection as it
  was: no key is accepted by default.
\<close>

theorem host_key_policy_explicit:
  "((\<exists>e. New user addr au w = ((None, Some e), log LoadKnownHosts (Some e) w)) \<or>
    (\<exists>store r. known_hosts w = Inr store \<and>
       trace (snd (New user addr au w)) =
         trace w @ [(LoadKnownHosts, None),
                    (SshDial ''tcp'' (net_JoinHostPort addr ''22'')
                       (Some (KnownHostsCallback store)), r)]))
   \<and> (\<exists>r. trace (snd (NewUnknown user addr au w)) =
         trace w @ [(SshDial ''tcp'' (net_JoinHostPort addr ''22'')
                       (Some InsecureIgnoreHostKey), r)])
   \<and> (\<exists>e. fst (Dial proto (cfg\<lparr>Callback := None\<rparr>) w) = Inl e
         \<and> snd (fst (NewConn (cfg\<lparr>Callback := None\<rparr>) w)) \<noteq> None
         \<and> conn_open (snd (Dial proto (cfg\<lparr>Callback := None\<rparr>) w)) = conn_open w)"
  by (auto simp: New_def NewUnknown_def NewConn_def Dial_def ssh_Dial_def fmt_Sprint_22
      DefaultKnownHosts_def attempt_def log_def
      split: option.splits sum.splits prod.splits if_splits)

section \<open>The result of creating a destination directory\<close>

text \<open>
  Claim C4, at an input where the code does not do what the claim says. The source
  directory holds one empty subdirectory and the destination path is a regular file
  on the remote side. Both calls of \<open>MkdirAll\<close> fail, no directory is created, and
  \<open>Upload\<close> returns no error.
\<close>

theorem Upload_drops_MkdirAll_error:
  "fst (Upload [''src''] [''dst''] mkdir_world) = None
   \<and> remotefs (snd (Upload [''src''] [''dst''] mkdir_world)) = Dir [(''dst'', File [9])]
   \<and> trace (snd (Upload [''src''] [''dst''] mkdir_world)) =
       [(OsStat [''src''], None), (SftpNewClient, None), (OsLstat [''src''], None),
        (OsReadDir [''src''], None),
        (SftpMkdirAll [''dst''], Some (PathError ''mkdir'' [''dst''] ''ENOTDIR'')),
        (OsLstat [''src'', ''sub''], None), (OsReadDir [''src'', ''sub''], None),
        (SftpMkdirAll [''dst'', ''sub''], Some (PathError ''mkdir'' [''dst'', ''sub''] ''ENOTDIR'')),
        (SftpClientClose, None)]"
  by (simp add: Upload_def uploadDirectory_def filepath_Walk_def os_Lstat_def os_Stat_def
      attempt_def log_def upload_visit_def filepath_Rel_def filepath_Join_def clean_def
      sftp_MkdirAll_def sftp_NewClient_def sftp_Client_Close.simps ex_world_def mkdir_world_def)

end
